theory Spec2Isabelle
  imports Complex_Main "HOL-Library.Word"
begin

unbundle bit_operations_syntax

section \<open>Spans, footprints and boxes\<close>

text \<open>
  The C++ type \<^verbatim>\<open>double\<close> is modelled by \<^typ>\<open>real\<close>: the statements below are about the
  exact arithmetic the code denotes, not about rounding. The one exception is the section
  on double arithmetic, where every operation is rounded as the hardware does it; it
  is used where the order of the additions decides the result.
\<close>

record Span =
  getY :: int
  getX0 :: int
  getX1 :: int

text \<open>
  Modelled from the spec: \<^verbatim>\<open>afw::detection::Footprint\<close> is not part of the sources. A region is
  an ordered sequence of spans \<open>(row, xStart, xEnd)\<close>, \<open>xStart \<le> xEnd\<close>, and its area is the sum
  of \<open>xEnd - xStart + 1\<close>. A span with \<open>xEnd < xStart\<close> holds no pixel.
\<close>

type_synonym Footprint = "Span list"

definition spanWidth :: "Span \<Rightarrow> nat" where
  "spanWidth s = nat (getX1 s - getX0 s + 1)"

definition getArea :: "Footprint \<Rightarrow> nat" where
  "getArea region = sum_list (map spanWidth region)"

text \<open>
  Modelled from the spec: \<^verbatim>\<open>afw::geom::Box2I\<close> is not part of the sources. A box is given by
  its smallest and largest pixel; it is empty when a maximum lies below the minimum.
\<close>

record Box2I =
  getMinX :: int
  getMinY :: int
  getMaxX :: int
  getMaxY :: int

definition boxContains :: "Box2I \<Rightarrow> int \<times> int \<Rightarrow> bool" where
  "boxContains box p =
     (getMinX box \<le> fst p \<and> fst p \<le> getMaxX box \<and> getMinY box \<le> snd p \<and> snd p \<le> getMaxY box)"

section \<open>GaussianModelBuilder\<close>

type_synonym xyrow = "real \<times> real"

record GaussianModelBuilder =
  xy :: "xyrow list"
  xyt :: "xyrow list"
  model :: "real list"

text \<open>
  Constructor from a Footprint: row \<open>n\<close> of \<open>_xy\<close> is the \<open>n\<close>-th pixel \<open>(x, y)\<close> in span
  order. \<open>_xyt\<close> is allocated with the same number of rows and left uninitialised (zeros here);
  \<open>_model\<close> starts empty.
\<close>

definition spanPixels :: "Span \<Rightarrow> xyrow list" where
  "spanPixels s = map (\<lambda>x. (real_of_int x, real_of_int (getY s))) [getX0 s..getX1 s]"

definition GaussianModelBuilder_Footprint :: "Footprint \<Rightarrow> GaussianModelBuilder" where
  "GaussianModelBuilder_Footprint region =
     (let rows = concat (map spanPixels region)
      in \<lparr>xy = rows, xyt = map (\<lambda>_. (0, 0)) rows, model = []\<rparr>)"

text \<open>Constructor from a box: the pixels row by row, from the lower left corner.\<close>

definition GaussianModelBuilder_Box2I :: "Box2I \<Rightarrow> GaussianModelBuilder" where
  "GaussianModelBuilder_Box2I region =
     (let rows = concat (map (\<lambda>y. map (\<lambda>x. (real_of_int x, real_of_int y))
                                     [getMinX region..getMaxX region])
                          [getMinY region..getMaxY region])
      in \<lparr>xy = rows, xyt = map (\<lambda>_. (0, 0)) rows, model = []\<rparr>)"

text \<open>
  Modelled from the spec: \<^verbatim>\<open>afw::geom::AffineTransform\<close> is not part of the sources. The six
  coefficients of an affine transform \<open>T(x, y) = M (x, y) + t\<close> are named as the code names
  them (\<^verbatim>\<open>AT::XX\<close>, ...): \<open>M = ((XX, XY), (YX, YY))\<close> and \<open>t = (X, Y)\<close>. A column of a
  \<open>6 \<times> P\<close> Jacobian holds one value per coefficient, so it has the same shape.
\<close>

record Affine6 =
  XX :: real
  XY :: real
  X :: real
  YX :: real
  YY :: real
  Y :: real

type_synonym Jacobian = "Affine6 list"

text \<open>
  Modelled from the spec: \<^verbatim>\<open>afw::geom::ellipses::Ellipse\<close> is not part of the sources. An
  ellipse exposes its grid transform, an affine map, and the derivative \<open>d()\<close> of the six
  coefficients of that map with respect to the five parameters of the ellipse (a \<open>6 \<times> 5\<close>
  matrix); nothing else of it is used, so an ellipse is the pair of the two.
\<close>

record Ellipse =
  getGridTransform :: Affine6
  getGridTransform_d :: Jacobian

definition applyTransform :: "Affine6 \<Rightarrow> xyrow \<Rightarrow> xyrow" where
  "applyTransform T p = (XX T * fst p + XY T * snd p + X T, YX T * fst p + YY T * snd p + Y T)"

definition squaredNorm :: "xyrow \<Rightarrow> real" where
  "squaredNorm p = fst p * fst p + snd p * snd p"

text \<open>
  \<open>computeModel\<close> allocates \<open>_model\<close> on first use, overwrites \<open>_xyt\<close> and \<open>_model\<close>, and returns
  the model array, which stays in the builder.
\<close>

definition computeModel :: "GaussianModelBuilder \<Rightarrow> Ellipse \<Rightarrow> real list \<times> GaussianModelBuilder" where
  "computeModel b ellipse =
     (let transform = getGridTransform ellipse;
          xyt' = map (applyTransform transform) (xy b);
          model' = map (\<lambda>p. exp (- 0.5 * squaredNorm p)) xyt'
      in (model', b\<lparr>xyt := xyt', model := model'\<rparr>))"

subsection \<open>The derivative\<close>

text \<open>
  The output buffer \<^verbatim>\<open>ndarray::Array<double,2,-1>\<close> is column-major: \<open>getSize0\<close> rows, and
  one list per column (\<open>getSize1\<close> is their number). In a well-formed buffer every column
  has \<open>getSize0\<close> entries.
\<close>

record Array2 =
  getSize0 :: nat
  columns :: "real list list"

definition getSize1 :: "Array2 \<Rightarrow> nat" where
  "getSize1 a = length (columns a)"

definition wf_Array2 :: "Array2 \<Rightarrow> bool" where
  "wf_Array2 a = list_all (\<lambda>c. length c = getSize0 a) (columns a)"

text \<open>
  \<open>InvalidParameter\<close> carries the format string and its two \<^verbatim>\<open>%d\<close> arguments.
  \<open>EigenAssertion\<close> stands for the places where Eigen asserts (and is undefined without
  assertions): a column index outside the array, or a coefficient-wise product of arrays
  of different sizes.
\<close>

datatype error = InvalidParameter string nat nat | EigenAssertion

definition setZero :: "Array2 \<Rightarrow> Array2" where
  "setZero a = a\<lparr>columns := map (map (\<lambda>_. 0)) (columns a)\<rparr>"

text \<open>\<^verbatim>\<open>out.col(n) += v\<close>, with exact sums; \<open>colAdd_double\<close> below rounds them.\<close>

definition colAdd :: "Array2 \<Rightarrow> nat \<Rightarrow> real list \<Rightarrow> Array2 \<times> error option" where
  "colAdd out n v =
     (if n < length (columns out)
      then (out\<lparr>columns := (columns out)[n := map2 (+) (columns out ! n) v]\<rparr>, None)
      else (out, Some EigenAssertion))"

text \<open>\<^verbatim>\<open>std::numeric_limits<double>::epsilon()\<close>\<close>

definition epsilon :: real where
  "epsilon = 1 / 2 ^ 52"

text \<open>
  \<^verbatim>\<open>jacobian.lpNorm<Eigen::Infinity>()\<close>: the largest absolute value of a coefficient
  (\<open>0\<close> here for a matrix without columns, where the loop below does not run).
\<close>

definition maxAbs6 :: "Affine6 \<Rightarrow> real" where
  "maxAbs6 J = max \<bar>XX J\<bar> (max \<bar>XY J\<bar> (max \<bar>X J\<bar> (max \<bar>YX J\<bar> (max \<bar>YY J\<bar> \<bar>Y J\<bar>))))"

definition lpNorm_Infinity :: "Jacobian \<Rightarrow> real" where
  "lpNorm_Infinity jacobian = foldr (\<lambda>J m. max (maxAbs6 J) m) jacobian 0"

text \<open>
  One guarded statement of the loop body:
  \<^verbatim>\<open>if (std::abs(j) > eps) out.col(n) += v;\<close>
  The state is the output buffer and the error raised so far, if any.
\<close>

definition addTerm ::
  "real \<Rightarrow> real \<Rightarrow> nat \<Rightarrow> real list \<Rightarrow> Array2 \<times> error option \<Rightarrow> Array2 \<times> error option" where
  "addTerm eps j n v st =
     (case snd st of
        Some e \<Rightarrow> st
      | None \<Rightarrow> if \<bar>j\<bar> > eps then colAdd (fst st) n v else st)"

text \<open>The six statements of the loop body for column \<open>n\<close>, in the order of the source.\<close>

definition derivativeColumn ::
  "real \<Rightarrow> real list \<Rightarrow> real list \<Rightarrow> real list \<Rightarrow> real list \<Rightarrow> nat \<Rightarrow> Affine6 \<Rightarrow>
   Array2 \<times> error option \<Rightarrow> Array2 \<times> error option" where
  "derivativeColumn eps xs ys dfdx dfdy n J st =
     (let st1 = addTerm eps (XX J) n (map2 (\<lambda>x d. XX J * x * d) xs dfdx) st;
          st2 = addTerm eps (XY J) n (map2 (\<lambda>y d. XY J * y * d) ys dfdx) st1;
          st3 = addTerm eps (X J) n (map (\<lambda>d. X J * d) dfdx) st2;
          st4 = addTerm eps (YX J) n (map2 (\<lambda>x d. YX J * x * d) xs dfdy) st3;
          st5 = addTerm eps (YY J) n (map2 (\<lambda>y d. YY J * y * d) ys dfdy) st4
      in addTerm eps (Y J) n (map (\<lambda>d. Y J * d) dfdy) st5)"

text \<open>\<^verbatim>\<open>for (int n = 0; n < jacobian.cols(); ++n)\<close>, from column \<open>n\<close> on.\<close>

fun derivativeLoop ::
  "real \<Rightarrow> real list \<Rightarrow> real list \<Rightarrow> real list \<Rightarrow> real list \<Rightarrow> nat \<Rightarrow> Jacobian \<Rightarrow>
   Array2 \<times> error option \<Rightarrow> Array2 \<times> error option" where
  "derivativeLoop eps xs ys dfdx dfdy n [] st = st"
| "derivativeLoop eps xs ys dfdx dfdy n (J # Js) st =
     derivativeLoop eps xs ys dfdx dfdy (Suc n) Js (derivativeColumn eps xs ys dfdx dfdy n J st)"

text \<open>
  \<^verbatim>\<open>dfdx = -_xyt.col(0).array() * _model\<close> and \<^verbatim>\<open>dfdy = -_xyt.col(1).array() * _model\<close>,
  coefficient-wise.
\<close>

definition dfdx_array :: "GaussianModelBuilder \<Rightarrow> real list" where
  "dfdx_array b = map2 (\<lambda>p m. - fst p * m) (xyt b) (model b)"

definition dfdy_array :: "GaussianModelBuilder \<Rightarrow> real list" where
  "dfdy_array b = map2 (\<lambda>p m. - snd p * m) (xyt b) (model b)"

text \<open>
  \<^verbatim>\<open>GaussianModelBuilder::_computeDerivative\<close>. The result is the builder, the output buffer
  and the error raised, if any. Both dimension checks test the number of rows, as in the
  source. The next two tests are Eigen's size assertions on the coefficient-wise products
  \<^verbatim>\<open>_xyt.col(0).array() * _model\<close> and \<^verbatim>\<open>_xy.col(0).array() * dfdx\<close>.
\<close>

definition computeDerivative_impl ::
  "GaussianModelBuilder \<Rightarrow> Array2 \<Rightarrow> Ellipse \<Rightarrow> Jacobian \<Rightarrow> bool \<Rightarrow> bool \<Rightarrow>
   GaussianModelBuilder \<times> Array2 \<times> error option" where
  "computeDerivative_impl b output ellipse jacobian add reuseModel =
     (let b1 = (if \<not> reuseModel then snd (computeModel b ellipse) else b)
      in if getSize0 output \<noteq> length (xy b1)
         then (b1, output,
               Some (InvalidParameter ''Incorrect number of rows for array: got %d, expected %d''
                       (getSize0 output) (length (xy b1))))
         else if getSize0 output \<noteq> length (xy b1)
         then (b1, output,
               Some (InvalidParameter ''Mismatch between array (%d) and jacobian dimensions (%d)''
                       (getSize1 output) (length jacobian)))
         else if length (model b1) \<noteq> length (xyt b1)
         then (b1, output, Some EigenAssertion)
         else if length (xyt b1) \<noteq> length (xy b1)
         then (b1, output, Some EigenAssertion)
         else
           (let dfdx = dfdx_array b1;
                dfdy = dfdy_array b1;
                out = (if \<not> add then setZero output else output);
                eps = epsilon * lpNorm_Infinity jacobian;
                r = derivativeLoop eps (map fst (xy b1)) (map snd (xy b1)) dfdx dfdy 0 jacobian
                      (out, None)
            in (b1, fst r, snd r)))"

text \<open>
  The two public overloads. The first passes the \<open>6 \<times> 5\<close> derivative of the grid transform;
  the second multiplies it by a \<open>5 \<times> P\<close> matrix, given as \<open>P\<close> columns of five values.
\<close>

definition computeDerivative ::
  "GaussianModelBuilder \<Rightarrow> Array2 \<Rightarrow> Ellipse \<Rightarrow> bool \<Rightarrow>
   GaussianModelBuilder \<times> Array2 \<times> error option" where
  "computeDerivative b output ellipse reuseModel =
     computeDerivative_impl b output ellipse (getGridTransform_d ellipse) False reuseModel"

definition scale6 :: "real \<Rightarrow> Affine6 \<Rightarrow> Affine6" where
  "scale6 c A = \<lparr>XX = c * XX A, XY = c * XY A, X = c * X A, YX = c * YX A, YY = c * YY A, Y = c * Y A\<rparr>"

definition add6 :: "Affine6 \<Rightarrow> Affine6 \<Rightarrow> Affine6" where
  "add6 A B = \<lparr>XX = XX A + XX B, XY = XY A + XY B, X = X A + X B,
               YX = YX A + YX B, YY = YY A + YY B, Y = Y A + Y B\<rparr>"

definition matmul6 :: "Jacobian \<Rightarrow> real list list \<Rightarrow> Jacobian" where
  "matmul6 gtJac jacobian =
     map (\<lambda>c. foldr add6 (map2 scale6 c gtJac) \<lparr>XX = 0, XY = 0, X = 0, YX = 0, YY = 0, Y = 0\<rparr>)
       jacobian"

definition computeDerivative_chain ::
  "GaussianModelBuilder \<Rightarrow> Array2 \<Rightarrow> Ellipse \<Rightarrow> real list list \<Rightarrow> bool \<Rightarrow> bool \<Rightarrow>
   GaussianModelBuilder \<times> Array2 \<times> error option" where
  "computeDerivative_chain b output ellipse jacobian add reuseModel =
     computeDerivative_impl b output ellipse
       (matmul6 (getGridTransform_d ellipse) jacobian) add reuseModel"

subsection \<open>The derivative without the sparsity test\<close>

text \<open>
  The reading of the specification in which all six multiply-add terms are performed for
  every column, whatever the magnitude of the Jacobian entry. Everything else is as in
  \<open>computeDerivative_impl\<close>.
\<close>

definition addTerm_unconditional ::
  "nat \<Rightarrow> real list \<Rightarrow> Array2 \<times> error option \<Rightarrow> Array2 \<times> error option" where
  "addTerm_unconditional n v st =
     (case snd st of
        Some e \<Rightarrow> st
      | None \<Rightarrow> colAdd (fst st) n v)"

definition derivativeColumn_unconditional ::
  "real list \<Rightarrow> real list \<Rightarrow> real list \<Rightarrow> real list \<Rightarrow> nat \<Rightarrow> Affine6 \<Rightarrow>
   Array2 \<times> error option \<Rightarrow> Array2 \<times> error option" where
  "derivativeColumn_unconditional xs ys dfdx dfdy n J st =
     (let st1 = addTerm_unconditional n (map2 (\<lambda>x d. XX J * x * d) xs dfdx) st;
          st2 = addTerm_unconditional n (map2 (\<lambda>y d. XY J * y * d) ys dfdx) st1;
          st3 = addTerm_unconditional n (map (\<lambda>d. X J * d) dfdx) st2;
          st4 = addTerm_unconditional n (map2 (\<lambda>x d. YX J * x * d) xs dfdy) st3;
          st5 = addTerm_unconditional n (map2 (\<lambda>y d. YY J * y * d) ys dfdy) st4
      in addTerm_unconditional n (map (\<lambda>d. Y J * d) dfdy) st5)"

fun derivativeLoop_unconditional ::
  "real list \<Rightarrow> real list \<Rightarrow> real list \<Rightarrow> real list \<Rightarrow> nat \<Rightarrow> Jacobian \<Rightarrow>
   Array2 \<times> error option \<Rightarrow> Array2 \<times> error option" where
  "derivativeLoop_unconditional xs ys dfdx dfdy n [] st = st"
| "derivativeLoop_unconditional xs ys dfdx dfdy n (J # Js) st =
     derivativeLoop_unconditional xs ys dfdx dfdy (Suc n) Js
       (derivativeColumn_unconditional xs ys dfdx dfdy n J st)"

definition computeDerivative_unconditional ::
  "GaussianModelBuilder \<Rightarrow> Array2 \<Rightarrow> Ellipse \<Rightarrow> Jacobian \<Rightarrow> bool \<Rightarrow> bool \<Rightarrow>
   GaussianModelBuilder \<times> Array2 \<times> error option" where
  "computeDerivative_unconditional b output ellipse jacobian add reuseModel =
     (let b1 = (if \<not> reuseModel then snd (computeModel b ellipse) else b)
      in if getSize0 output \<noteq> length (xy b1)
         then (b1, output,
               Some (InvalidParameter ''Incorrect number of rows for array: got %d, expected %d''
                       (getSize0 output) (length (xy b1))))
         else if getSize0 output \<noteq> length (xy b1)
         then (b1, output,
               Some (InvalidParameter ''Mismatch between array (%d) and jacobian dimensions (%d)''
                       (getSize1 output) (length jacobian)))
         else if length (model b1) \<noteq> length (xyt b1)
         then (b1, output, Some EigenAssertion)
         else if length (xyt b1) \<noteq> length (xy b1)
         then (b1, output, Some EigenAssertion)
         else
           (let dfdx = dfdx_array b1;
                dfdy = dfdy_array b1;
                out = (if \<not> add then setZero output else output);
                r = derivativeLoop_unconditional (map fst (xy b1)) (map snd (xy b1)) dfdx dfdy 0
                      jacobian (out, None)
            in (b1, fst r, snd r)))"

subsection \<open>Notions used to state the results\<close>

text \<open>
  A Jacobian entry as the loop sees it: an entry whose magnitude does not exceed the
  threshold contributes nothing.
\<close>

definition thr :: "real \<Rightarrow> real \<Rightarrow> real" where
  "thr eps j = (if \<bar>j\<bar> > eps then j else 0)"

definition threshold6 :: "real \<Rightarrow> Affine6 \<Rightarrow> Affine6" where
  "threshold6 eps J = \<lparr>XX = thr eps (XX J), XY = thr eps (XY J), X = thr eps (X J),
                        YX = thr eps (YX J), YY = thr eps (YY J), Y = thr eps (Y J)\<rparr>"

text \<open>
  The chain-rule sum at one pixel \<open>(x, y)\<close> with partials \<open>dfdx\<close>, \<open>dfdy\<close>: the partials with
  respect to \<open>(XX, XY, X, YX, YY, Y)\<close> are \<open>x dfdx, y dfdx, dfdx, x dfdy, y dfdy, dfdy\<close>.
\<close>

definition chainSum :: "Affine6 \<Rightarrow> real \<Rightarrow> real \<Rightarrow> real \<Rightarrow> real \<Rightarrow> real" where
  "chainSum J x y dx dy =
     XX J * x * dx + XY J * y * dx + X J * dx + YX J * x * dy + YY J * y * dy + Y J * dy"

definition addToColumn :: "Array2 \<Rightarrow> nat \<Rightarrow> (nat \<Rightarrow> real) \<Rightarrow> Array2" where
  "addToColumn out n f =
     out\<lparr>columns := (columns out)[n := map (\<lambda>i. columns out ! n ! i + f i) [0..<length (columns out ! n)]]\<rparr>"

definition loopResult ::
  "real \<Rightarrow> real list \<Rightarrow> real list \<Rightarrow> real list \<Rightarrow> real list \<Rightarrow> nat \<Rightarrow> Jacobian \<Rightarrow> Array2 \<Rightarrow> Array2" where
  "loopResult eps xs ys dfdx dfdy n Js out =
     out\<lparr>columns :=
       map (\<lambda>p. if n \<le> p \<and> p < n + length Js
                then map (\<lambda>i. columns out ! p ! i +
                            chainSum (threshold6 eps (Js ! (p - n))) (xs ! i) (ys ! i) (dfdx ! i) (dfdy ! i))
                       [0..<length (columns out ! p)]
                else columns out ! p)
         [0..<length (columns out)]\<rparr>"

text \<open>A buffer of the right shape for a builder and a Jacobian.\<close>

definition validOutput :: "GaussianModelBuilder \<Rightarrow> Jacobian \<Rightarrow> Array2 \<Rightarrow> bool" where
  "validOutput b jacobian output =
     (wf_Array2 output \<and> getSize0 output = length (xy b) \<and> getSize1 output = length jacobian)"

text \<open>
  With \<open>reuseModel\<close> the caller promises that \<open>computeModel\<close> has run: the cached arrays have
  one entry per pixel.
\<close>

definition modelAvailable :: "GaussianModelBuilder \<Rightarrow> bool \<Rightarrow> bool" where
  "modelAvailable b reuseModel =
     (reuseModel \<longrightarrow> length (model b) = length (xy b) \<and> length (xyt b) = length (xy b))"

text \<open>
  An entry of a Jacobian column is clear of the threshold when it is zero or larger in
  magnitude than the threshold, so that skipping it and adding it give the same result.
\<close>

definition clearOfThreshold :: "real \<Rightarrow> Affine6 \<Rightarrow> bool" where
  "clearOfThreshold eps J =
     ((XX J = 0 \<or> \<bar>XX J\<bar> > eps) \<and> (XY J = 0 \<or> \<bar>XY J\<bar> > eps) \<and> (X J = 0 \<or> \<bar>X J\<bar> > eps) \<and>
      (YX J = 0 \<or> \<bar>YX J\<bar> > eps) \<and> (YY J = 0 \<or> \<bar>YY J\<bar> > eps) \<and> (Y J = 0 \<or> \<bar>Y J\<bar> > eps))"

subsection \<open>Example data\<close>

text \<open>A builder over the single pixel \<open>(1, 0)\<close>, the identity grid transform, the zero column.\<close>

definition onePixel :: GaussianModelBuilder where
  "onePixel = GaussianModelBuilder_Footprint [\<lparr>getY = 0, getX0 = 1, getX1 = 1\<rparr>]"

definition zero6 :: Affine6 where
  "zero6 = \<lparr>XX = 0, XY = 0, X = 0, YX = 0, YY = 0, Y = 0\<rparr>"

text \<open>A Jacobian entry that is not zero and lies below \<open>epsilon\<close>.\<close>

definition tiny :: real where
  "tiny = 1 / 2 ^ 60"

definition identityEllipse :: Ellipse where
  "identityEllipse =
     \<lparr>getGridTransform = \<lparr>XX = 1, XY = 0, X = 0, YX = 0, YY = 1, Y = 0\<rparr>, getGridTransform_d = []\<rparr>"


section \<open>GaussianModelBuilder in double arithmetic\<close>

text \<open>
  The definitions above read \<^verbatim>\<open>double\<close> as \<^typ>\<open>real\<close>, so that every operation is exact.
  The source computes in IEEE 754 binary64, where every operation rounds its exact result,
  and the sum of several terms depends on the order in which they are added. This section
  repeats \<open>computeModel\<close> and \<open>_computeDerivative\<close> with every operation rounded.
\<close>

subsection \<open>Rounding\<close>

text \<open>The integer nearest to \<open>y\<close>; of two integers at the same distance, the even one.\<close>

definition rne :: "real \<Rightarrow> int" where
  "rne y =
     (if y - of_int \<lfloor>y\<rfloor> < 1 / 2 then \<lfloor>y\<rfloor>
      else if y - of_int \<lfloor>y\<rfloor> > 1 / 2 then \<lfloor>y\<rfloor> + 1
      else if even \<lfloor>y\<rfloor> then \<lfloor>y\<rfloor> else \<lfloor>y\<rfloor> + 1)"

text \<open>
  A double other than zero is \<open>\<plusminus> k 2\<^sup>e\<close> with an integer \<open>2\<^sup>5\<^sup>2 \<le> k < 2\<^sup>5\<^sup>3\<close>. For \<open>x\<close> with
  \<open>2\<^sup>n \<le> \<bar>x\<bar> < 2\<^sup>n\<^sup>+\<^sup>1\<close> the doubles next to \<open>x\<close> are the multiples of \<open>2\<^sup>n\<^sup>-\<^sup>5\<^sup>2\<close>, and \<open>fl x\<close> is
  the nearest of them, ties to the even multiple (round to nearest even, the default
  rounding mode). The exponent is not bounded: overflow, subnormal numbers, infinities
  and NaN are left out.
\<close>

definition expo :: "real \<Rightarrow> int" where
  "expo x = \<lfloor>log 2 \<bar>x\<bar>\<rfloor>"

definition ulp :: "real \<Rightarrow> real" where
  "ulp x = 2 powr (of_int (expo x) - 52)"

definition fl :: "real \<Rightarrow> real" where
  "fl x = (if x = 0 then 0 else of_int (rne (x / ulp x)) * ulp x)"

text \<open>
  Addition and multiplication round the exact result; negation is exact. \<^verbatim>\<open>std::exp\<close> is
  taken as correctly rounded.
\<close>

definition dadd :: "real \<Rightarrow> real \<Rightarrow> real" where
  "dadd a b = fl (a + b)"

definition dmul :: "real \<Rightarrow> real \<Rightarrow> real" where
  "dmul a b = fl (a * b)"

definition dexp :: "real \<Rightarrow> real" where
  "dexp a = fl (exp a)"

subsection \<open>The model and the derivative\<close>

text \<open>
  \<^verbatim>\<open>_xyt.transpose() = m * _xy.transpose()\<close> is a sum of two products per coefficient, and
  \<^verbatim>\<open>_xyt.transpose().colwise() += t\<close> adds the translation to it.
\<close>

definition applyTransform_double :: "Affine6 \<Rightarrow> xyrow \<Rightarrow> xyrow" where
  "applyTransform_double T p =
     (dadd (dadd (dmul (XX T) (fst p)) (dmul (XY T) (snd p))) (X T),
      dadd (dadd (dmul (YX T) (fst p)) (dmul (YY T) (snd p))) (Y T))"

definition squaredNorm_double :: "xyrow \<Rightarrow> real" where
  "squaredNorm_double p = dadd (dmul (fst p) (fst p)) (dmul (snd p) (snd p))"

definition computeModel_double ::
  "GaussianModelBuilder \<Rightarrow> Ellipse \<Rightarrow> real list \<times> GaussianModelBuilder" where
  "computeModel_double b ellipse =
     (let transform = getGridTransform ellipse;
          xyt' = map (applyTransform_double transform) (xy b);
          model' = map (\<lambda>p. dexp (dmul (- 0.5) (squaredNorm_double p))) xyt'
      in (model', b\<lparr>xyt := xyt', model := model'\<rparr>))"








subsection \<open>Notions used to state the results in double arithmetic\<close>

text \<open>
  The terms that the loop body adds to the entry of a pixel \<open>(x, y)\<close> for a Jacobian column
  \<open>J\<close>, in the order in which it adds them: a term is present when its coefficient exceeds
  the threshold.
\<close>

definition keptTerms :: "real \<Rightarrow> Affine6 \<Rightarrow> real \<Rightarrow> real \<Rightarrow> real \<Rightarrow> real \<Rightarrow> real list" where
  "keptTerms eps J x y dx dy =
     map snd (filter (\<lambda>t. \<bar>fst t\<bar> > eps)
       [(XX J, dmul (dmul (XX J) x) dx), (XY J, dmul (dmul (XY J) y) dx), (X J, dmul (X J) dx),
        (YX J, dmul (dmul (YX J) x) dy), (YY J, dmul (dmul (YY J) y) dy), (Y J, dmul (Y J) dy)])"

text \<open>The buffer after entry \<open>i\<close> of column \<open>n\<close> has been replaced by \<open>f i\<close> of it, for every \<open>i\<close>.\<close>

definition updColumn :: "Array2 \<Rightarrow> nat \<Rightarrow> (nat \<Rightarrow> real \<Rightarrow> real) \<Rightarrow> Array2" where
  "updColumn out n f =
     out\<lparr>columns := (columns out)[n := map (\<lambda>i. f i (columns out ! n ! i)) [0..<length (columns out ! n)]]\<rparr>"

definition loopResult_double ::
  "real \<Rightarrow> real list \<Rightarrow> real list \<Rightarrow> real list \<Rightarrow> real list \<Rightarrow> nat \<Rightarrow> Jacobian \<Rightarrow> Array2 \<Rightarrow> Array2" where
  "loopResult_double eps xs ys dfdx dfdy n Js out =
     out\<lparr>columns :=
       map (\<lambda>p. if n \<le> p \<and> p < n + length Js
                then map (\<lambda>i. foldl dadd (columns out ! p ! i)
                            (keptTerms eps (Js ! (p - n)) (xs ! i) (ys ! i) (dfdx ! i) (dfdy ! i)))
                       [0..<length (columns out ! p)]
                else columns out ! p)
         [0..<length (columns out)]\<rparr>"

section \<open>PackedIndex\<close>

text \<open>
  The fields \<open>_n, _i, _x, _y\<close> are C++ \<open>int\<close>s, taken to be 32 bits wide. They are modelled
  by \<^typ>\<open>int\<close>, and an arithmetic result outside the range of \<open>int\<close> (undefined behaviour
  in C++) is the failure \<open>None\<close>.
\<close>

definition INT_MAX :: int where
  "INT_MAX = 2147483647"

definition INT_MIN :: int where
  "INT_MIN = - 2147483648"

definition checked :: "int \<Rightarrow> int option" where
  "checked v = (if INT_MIN \<le> v \<and> v \<le> INT_MAX then Some v else None)"

text \<open>
  The fields \<open>_n, _i, _x, _y\<close>, which \<open>getOrder\<close>, \<open>getIndex\<close>, \<open>getX\<close> and \<open>getY\<close> return.
\<close>

record PackedIndex =
  p_n :: int
  p_i :: int
  p_x :: int
  p_y :: int

text \<open>
  \<^verbatim>\<open>computeOffset(order) = order*(order+1)/2\<close> and \<^verbatim>\<open>computeIndex(x, y) = computeOffset(x+y) + x\<close>.
  The product of two consecutive integers is not negative, so the truncating division of
  C++ agrees with \<open>div\<close> here.
\<close>

definition computeOffset :: "int \<Rightarrow> int option" where
  "computeOffset order =
     (case checked (order + 1) of
        None \<Rightarrow> None
      | Some a \<Rightarrow> (case checked (order * a) of None \<Rightarrow> None | Some p \<Rightarrow> Some (p div 2)))"

definition computeIndex :: "int \<Rightarrow> int \<Rightarrow> int option" where
  "computeIndex x y =
     (case checked (x + y) of
        None \<Rightarrow> None
      | Some n \<Rightarrow> (case computeOffset n of None \<Rightarrow> None | Some off \<Rightarrow> checked (off + x)))"

text \<open>The default constructor and the constructor from \<open>(x, y)\<close>.\<close>

definition PackedIndex_origin :: PackedIndex where
  "PackedIndex_origin = \<lparr>p_n = 0, p_i = 0, p_x = 0, p_y = 0\<rparr>"

definition PackedIndex_xy :: "int \<Rightarrow> int \<Rightarrow> PackedIndex option" where
  "PackedIndex_xy x y =
     (case checked (x + y) of
        None \<Rightarrow> None
      | Some n \<Rightarrow>
          (case computeOffset n of
             None \<Rightarrow> None
           | Some off \<Rightarrow>
               (case checked (off + x) of
                  None \<Rightarrow> None
                | Some i \<Rightarrow> Some \<lparr>p_n = n, p_i = i, p_x = x, p_y = y\<rparr>)))"

text \<open>
  \<^verbatim>\<open>operator++\<close>:
  \<^verbatim>\<open>++_i; if (--_y < 0) { _x = 0; _y = ++_n; } else { ++_x; }\<close>
\<close>

definition increment :: "PackedIndex \<Rightarrow> PackedIndex option" where
  "increment s =
     (case checked (p_i s + 1) of
        None \<Rightarrow> None
      | Some i' \<Rightarrow>
          (case checked (p_y s - 1) of
             None \<Rightarrow> None
           | Some y' \<Rightarrow>
               if y' < 0
               then (case checked (p_n s + 1) of
                       None \<Rightarrow> None
                     | Some n' \<Rightarrow> Some \<lparr>p_n = n', p_i = i', p_x = 0, p_y = n'\<rparr>)
               else (case checked (p_x s + 1) of
                       None \<Rightarrow> None
                     | Some x' \<Rightarrow> Some \<lparr>p_n = p_n s, p_i = i', p_x = x', p_y = y'\<rparr>)))"

text \<open>
  The traversal the class is written for,
  \<^verbatim>\<open>for (PackedIndex i; i.getOrder() <= order; ++i) { ... }\<close>,
  started in state \<open>s\<close>: the list of the states the body sees, or \<open>None\<close> when an increment
  overflows.
\<close>

function traverse :: "int \<Rightarrow> PackedIndex \<Rightarrow> PackedIndex list option" where
  "traverse order s =
     (if p_n s \<le> order
      then (case increment s of
              None \<Rightarrow> None
            | Some s' \<Rightarrow> map_option ((#) s) (traverse order s'))
      else Some [])"
  by pat_completeness auto
termination
proof (relation "measure (\<lambda>(order, s).
          nat (order + 1 - p_n s) * (nat (order + 1) + 1) + nat (p_y s))")
  show "wf (measure (\<lambda>(order, s).
          nat (order + 1 - p_n s) * (nat (order + 1) + 1) + nat (p_y s)))"
    by simp
next
  fix order :: int and s s' :: PackedIndex
  assume le: "p_n s \<le> order" and inc: "increment s = Some s'"
  show "((order, s'), (order, s)) \<in> measure (\<lambda>(order, s).
          nat (order + 1 - p_n s) * (nat (order + 1) + 1) + nat (p_y s))"
  proof (cases "p_y s - 1 < 0")
    case True
    with inc have s': "p_n s' = p_n s + 1" "p_y s' = p_n s + 1"
      by (auto simp: increment_def checked_def split: option.splits if_splits)
    have "nat (order + 1 - (p_n s + 1)) * (nat (order + 1) + 1) + nat (p_n s + 1)
          < (nat (order + 1 - (p_n s + 1)) + 1) * (nat (order + 1) + 1)"
      using le by simp
    also have "nat (order + 1 - (p_n s + 1)) + 1 = nat (order + 1 - p_n s)"
      using le by simp
    finally show ?thesis
      by (simp add: s')
  next
    case False
    with inc have s': "p_n s' = p_n s" "p_y s' = p_y s - 1"
      by (auto simp: increment_def checked_def split: option.splits if_splits)
    with False show ?thesis by simp
  qed
qed

declare traverse.simps [simp del]

text \<open>
  The canonical order of the specification: all pairs of total order \<open>0\<close>, then order \<open>1\<close>,
  and so on; within order \<open>n\<close>, \<open>x\<close> runs from \<open>0\<close> to \<open>n\<close> while \<open>y = n - x\<close> runs from \<open>n\<close> to \<open>0\<close>.
\<close>

definition orderRow :: "int \<Rightarrow> (int \<times> int) list" where
  "orderRow n = map (\<lambda>x. (x, n - x)) [0..n]"

definition canonicalOrder :: "int \<Rightarrow> (int \<times> int) list" where
  "canonicalOrder M = concat (map orderRow [0..M])"

text \<open>The number of pairs \<open>(x, y)\<close> with \<open>x + y \<le> M\<close>.\<close>

definition basisSize :: "int \<Rightarrow> int" where
  "basisSize M = (M + 1) * (M + 2) div 2"

subsection \<open>Notions used to state the results on PackedIndex\<close>

text \<open>What every state reached from the origin satisfies.\<close>

definition packedInv :: "PackedIndex \<Rightarrow> bool" where
  "packedInv s = (0 \<le> p_x s \<and> 0 \<le> p_y s \<and> p_n s = p_x s + p_y s \<and>
                  p_i s = p_n s * (p_n s + 1) div 2 + p_x s)"

text \<open>The successor of a state in the canonical order.\<close>

definition nextState :: "PackedIndex \<Rightarrow> PackedIndex" where
  "nextState s =
     (if p_y s = 0
      then \<lparr>p_n = p_n s + 1, p_i = p_i s + 1, p_x = 0, p_y = p_n s + 1\<rparr>
      else \<lparr>p_n = p_n s, p_i = p_i s + 1, p_x = p_x s + 1, p_y = p_y s - 1\<rparr>)"

text \<open>The state at position \<open>x\<close> of order \<open>m\<close>, a whole order, and the states from \<open>(n, x)\<close> up to order \<open>M\<close>.\<close>

definition mkState :: "int \<Rightarrow> int \<Rightarrow> PackedIndex" where
  "mkState m x = \<lparr>p_n = m, p_i = m * (m + 1) div 2 + x, p_x = x, p_y = m - x\<rparr>"

definition rowStates :: "int \<Rightarrow> PackedIndex list" where
  "rowStates m = map (mkState m) [0..m]"

definition statesFrom :: "int \<Rightarrow> int \<Rightarrow> int \<Rightarrow> PackedIndex list" where
  "statesFrom M n x = map (mkState n) [x..n] @ concat (map rowStates [n + 1..M])"

section \<open>ModelInputHandler\<close>

subsection \<open>Images and the operations on footprints\<close>

text \<open>The pixels \<open>(x, y)\<close> of a footprint, span by span and from \<open>x0\<close> to \<open>x1\<close> within a span.\<close>

definition footprintPixels :: "Footprint \<Rightarrow> (int \<times> int) list" where
  "footprintPixels region = concat (map (\<lambda>s. map (\<lambda>x. (x, getY s)) [getX0 s..getX1 s]) region)"

text \<open>
  Modelled from the spec: the constructor \<^verbatim>\<open>Footprint(Box2I)\<close> is not part of the sources. The
  footprint of a rectangular region has one span per row of the box.
\<close>

definition Footprint_Box2I :: "Box2I \<Rightarrow> Footprint" where
  "Footprint_Box2I box =
     (if getMaxX box < getMinX box then []
      else map (\<lambda>y. \<lparr>getY = y, getX0 = getMinX box, getX1 = getMaxX box\<rparr>) [getMinY box..getMaxY box])"

text \<open>
  Modelled from the spec: \<^verbatim>\<open>Footprint::clipTo\<close> is not part of the sources. It clips the
  region to a box: a span outside the box is dropped, any other is cut to the columns of
  the box.
\<close>

definition clipSpan :: "Box2I \<Rightarrow> Span \<Rightarrow> Span option" where
  "clipSpan box s =
     (if getY s < getMinY box \<or> getMaxY box < getY s \<or>
         min (getX1 s) (getMaxX box) < max (getX0 s) (getMinX box)
      then None
      else Some \<lparr>getY = getY s, getX0 = max (getX0 s) (getMinX box), getX1 = min (getX1 s) (getMaxX box)\<rparr>)"

definition clipTo :: "Box2I \<Rightarrow> Footprint \<Rightarrow> Footprint" where
  "clipTo box region = List.map_filter (clipSpan box) region"

text \<open>
  Modelled from the spec: the image classes are not part of the sources. An image plane
  exposes pixel lookup by (row, column), its dimensions and an origin offset \<open>xy0 = (x0, y0)\<close>;
  its bounding box in parent coordinates starts at the origin.
\<close>

record 'a ImageArray =
  arrayHeight :: nat
  arrayWidth :: nat
  arrayAt :: "nat \<Rightarrow> nat \<Rightarrow> 'a"

record 'a Image =
  getXY0 :: "int \<times> int"
  getArray :: "'a ImageArray"

definition getBBox :: "'a Image \<Rightarrow> Box2I" where
  "getBBox img =
     \<lparr>getMinX = fst (getXY0 img), getMinY = snd (getXY0 img),
      getMaxX = fst (getXY0 img) + int (arrayWidth (getArray img)) - 1,
      getMaxY = snd (getXY0 img) + int (arrayHeight (getArray img)) - 1\<rparr>"

type_synonym MaskPixel = "16 word"

record MaskedImage =
  getImage :: "real Image"
  getMask :: "MaskPixel Image"
  getVariance :: "real Image"

text \<open>
  Modelled from the spec: \<^verbatim>\<open>afw::detection::flattenArray\<close> is not part of the sources. It
  copies, span by span, the pixels of the footprint out of the array, a pixel \<open>(x, y)\<close> being
  found at row \<open>y - y0\<close> and column \<open>x - x0\<close>. A read outside the array is undefined in C++;
  here it is the error \<open>ArrayOutOfBounds\<close>.
\<close>

datatype extract_error = ArrayOutOfBounds

definition inArray :: "'a ImageArray \<Rightarrow> int \<times> int \<Rightarrow> int \<times> int \<Rightarrow> bool" where
  "inArray src xy0 p =
     (0 \<le> snd p - snd xy0 \<and> snd p - snd xy0 < int (arrayHeight src) \<and>
      0 \<le> fst p - fst xy0 \<and> fst p - fst xy0 < int (arrayWidth src))"

definition readArray :: "'a ImageArray \<Rightarrow> int \<times> int \<Rightarrow> int \<times> int \<Rightarrow> 'a" where
  "readArray src xy0 p = arrayAt src (nat (snd p - snd xy0)) (nat (fst p - fst xy0))"

definition flattenArray :: "Footprint \<Rightarrow> 'a ImageArray \<Rightarrow> int \<times> int \<Rightarrow> extract_error + 'a list" where
  "flattenArray region src xy0 =
     (if list_all (inArray src xy0) (footprintPixels region)
      then Inr (map (readArray src xy0) (footprintPixels region))
      else Inl ArrayOutOfBounds)"

subsection \<open>The handler\<close>

text \<open>
  The fields \<open>_footprint, _x, _y, _data, _weights\<close>. An array that was never allocated
  (\<open>_weights\<close> of the constructors without variance) is \<open>None\<close>.
\<close>

record ModelInputHandler =
  h_footprint :: Footprint
  h_x :: "real list"
  h_y :: "real list"
  h_data :: "real list"
  h_weights :: "real list option"

text \<open>\<^verbatim>\<open>initCoords\<close>: one entry per pixel, in the order of the spans.\<close>

definition initCoords :: "Footprint \<Rightarrow> real \<times> real \<Rightarrow> real list \<times> real list" where
  "initCoords region center =
     (concat (map (\<lambda>s. map (\<lambda>ix. real_of_int ix - fst center) [getX0 s..getX1 s]) region),
      concat (map (\<lambda>s. map (\<lambda>ix. real_of_int (getY s) - snd center) [getX0 s..getX1 s]) region))"


text \<open>
  The constructor from an image and a footprint. \<^verbatim>\<open>afw::detection::growFootprint\<close> is not part
  of the sources and is the parameter \<open>grow\<close>.
\<close>

definition ModelInputHandler_Image_Footprint ::
  "(Footprint \<Rightarrow> int \<Rightarrow> Footprint) \<Rightarrow> real Image \<Rightarrow> real \<times> real \<Rightarrow> Footprint \<Rightarrow> int \<Rightarrow>
   extract_error + ModelInputHandler" where
  "ModelInputHandler_Image_Footprint grow img center region growFootprint =
     (let footprint = clipTo (getBBox img)
                        (if growFootprint \<noteq> 0 then grow region growFootprint else region)
      in case flattenArray footprint (getArray img) (getXY0 img) of
           Inl e \<Rightarrow> Inl e
         | Inr data \<Rightarrow>
             Inr \<lparr>h_footprint = footprint, h_x = fst (initCoords footprint center),
                  h_y = snd (initCoords footprint center), h_data = data, h_weights = None\<rparr>)"

text \<open>\<^verbatim>\<open>_weights.asEigen().mean()\<close>\<close>

definition mean :: "real list \<Rightarrow> real" where
  "mean ws = sum_list ws / real (length ws)"

text \<open>
  The constructors from a masked image. \<^verbatim>\<open>Footprint::intersectMask\<close> is not part of the
  sources and is the parameter \<open>intersectMask\<close>. No \<open>clipTo\<close> is called here. The image and
  the variance are extracted, every variance is replaced by the mean unless
  \<open>usePixelWeights\<close>, the variances are turned into weights by \<^verbatim>\<open>sqrt().inverse()\<close>, and the
  data are multiplied by the weights.
\<close>

definition ModelInputHandler_MaskedImage_Box2I ::
  "(Footprint \<Rightarrow> MaskPixel Image \<Rightarrow> MaskPixel \<Rightarrow> Footprint) \<Rightarrow> MaskedImage \<Rightarrow> real \<times> real \<Rightarrow>
   Box2I \<Rightarrow> MaskPixel \<Rightarrow> bool \<Rightarrow> extract_error + ModelInputHandler" where
  "ModelInputHandler_MaskedImage_Box2I intersectMask img center region badPixelMask usePixelWeights =
     (let footprint = intersectMask (Footprint_Box2I region) (getMask img) badPixelMask
      in case flattenArray footprint (getArray (getImage img)) (getXY0 (getImage img)) of
           Inl e \<Rightarrow> Inl e
         | Inr data \<Rightarrow>
             (case flattenArray footprint (getArray (getVariance img)) (getXY0 (getImage img)) of
                Inl e \<Rightarrow> Inl e
              | Inr variance \<Rightarrow>
                  (let weights1 = (if \<not> usePixelWeights
                                   then map (\<lambda>_. mean variance) variance else variance);
                       weights = map (\<lambda>w. 1 / sqrt w) weights1
                   in Inr \<lparr>h_footprint = footprint, h_x = fst (initCoords footprint center),
                           h_y = snd (initCoords footprint center),
                           h_data = map2 (*) data weights, h_weights = Some weights\<rparr>)))"

definition ModelInputHandler_MaskedImage_Footprint ::
  "(Footprint \<Rightarrow> int \<Rightarrow> Footprint) \<Rightarrow> (Footprint \<Rightarrow> MaskPixel Image \<Rightarrow> MaskPixel \<Rightarrow> Footprint) \<Rightarrow>
   MaskedImage \<Rightarrow> real \<times> real \<Rightarrow> Footprint \<Rightarrow> int \<Rightarrow> MaskPixel \<Rightarrow> bool \<Rightarrow>
   extract_error + ModelInputHandler" where
  "ModelInputHandler_MaskedImage_Footprint grow intersectMask img center region growFootprint
     badPixelMask usePixelWeights =
     (let footprint = intersectMask (if growFootprint \<noteq> 0 then grow region growFootprint else region)
                        (getMask img) badPixelMask
      in case flattenArray footprint (getArray (getImage img)) (getXY0 (getImage img)) of
           Inl e \<Rightarrow> Inl e
         | Inr data \<Rightarrow>
             (case flattenArray footprint (getArray (getVariance img)) (getXY0 (getImage img)) of
                Inl e \<Rightarrow> Inl e
              | Inr variance \<Rightarrow>
                  (let weights1 = (if \<not> usePixelWeights
                                   then map (\<lambda>_. mean variance) variance else variance);
                       weights = map (\<lambda>w. 1 / sqrt w) weights1
                   in Inr \<lparr>h_footprint = footprint, h_x = fst (initCoords footprint center),
                           h_y = snd (initCoords footprint center),
                           h_data = map2 (*) data weights, h_weights = Some weights\<rparr>)))"

text \<open>
  Modelled from the spec: \<^verbatim>\<open>Footprint::intersectMask\<close> is not part of the sources. It is
  an intersection of the region with the mask: "pixels whose mask bits intersect a
  caller-specified bad bitmask are excluded from the region", and the working region is
  always clipped to the valid bounds. So a pixel of the region is kept when it lies in the
  mask and its mask value has no bit of the bitmask. The result lists the remaining pixels
  in their order, one span each.
\<close>

definition maskKeeps :: "MaskPixel Image \<Rightarrow> MaskPixel \<Rightarrow> int \<times> int \<Rightarrow> bool" where
  "maskKeeps msk bitmask p =
     (inArray (getArray msk) (getXY0 msk) p \<and>
      readArray (getArray msk) (getXY0 msk) p AND bitmask = 0)"

definition intersectMask_bits :: "Footprint \<Rightarrow> MaskPixel Image \<Rightarrow> MaskPixel \<Rightarrow> Footprint" where
  "intersectMask_bits region msk bitmask =
     map (\<lambda>p. \<lparr>getY = snd p, getX0 = fst p, getX1 = fst p\<rparr>)
       (filter (maskKeeps msk bitmask) (footprintPixels region))"

subsection \<open>Notions used to state the results on ModelInputHandler\<close>

text \<open>The part the two constructors from a masked image share, for a given footprint.\<close>

definition extractWeighted ::
  "Footprint \<Rightarrow> MaskedImage \<Rightarrow> real \<times> real \<Rightarrow> bool \<Rightarrow> extract_error + ModelInputHandler" where
  "extractWeighted footprint img center usePixelWeights =
     (case flattenArray footprint (getArray (getImage img)) (getXY0 (getImage img)) of
        Inl e \<Rightarrow> Inl e
      | Inr data \<Rightarrow>
          (case flattenArray footprint (getArray (getVariance img)) (getXY0 (getImage img)) of
             Inl e \<Rightarrow> Inl e
           | Inr variance \<Rightarrow>
               (let weights1 = (if \<not> usePixelWeights
                                then map (\<lambda>_. mean variance) variance else variance);
                    weights = map (\<lambda>w. 1 / sqrt w) weights1
                in Inr \<lparr>h_footprint = footprint, h_x = fst (initCoords footprint center),
                        h_y = snd (initCoords footprint center),
                        h_data = map2 (*) data weights, h_weights = Some weights\<rparr>)))"

text \<open>Every pixel of the footprint can be read from the image and from the variance plane.\<close>

definition readable :: "Footprint \<Rightarrow> MaskedImage \<Rightarrow> bool" where
  "readable footprint img =
     (list_all (inArray (getArray (getImage img)) (getXY0 (getImage img))) (footprintPixels footprint) \<and>
      list_all (inArray (getArray (getVariance img)) (getXY0 (getImage img))) (footprintPixels footprint))"


text \<open>All arrays of a handler have one entry per pixel of its footprint.\<close>

definition sized :: "ModelInputHandler \<Rightarrow> bool" where
  "sized h =
     (length (h_x h) = getArea (h_footprint h) \<and> length (h_y h) = getArea (h_footprint h) \<and>
      length (h_data h) = getArea (h_footprint h) \<and>
      (case h_weights h of None \<Rightarrow> True | Some w \<Rightarrow> length w = getArea (h_footprint h)))"

text \<open>
  The weights and data of a handler built from a masked image: with \<open>usePixelWeights\<close> the
  weight of a pixel is \<open>1 / sqrt\<close> of its variance, without it every weight is \<open>1 / sqrt\<close> of
  the mean variance; the data are the pixel values times the weights.
\<close>

definition weightedBy :: "MaskedImage \<Rightarrow> bool \<Rightarrow> ModelInputHandler \<Rightarrow> bool" where
  "weightedBy img usePixelWeights h =
     (let pixels = footprintPixels (h_footprint h);
          raw = map (readArray (getArray (getImage img)) (getXY0 (getImage img))) pixels;
          var = map (readArray (getArray (getVariance img)) (getXY0 (getImage img))) pixels;
          ws = (if usePixelWeights then map (\<lambda>v. 1 / sqrt v) var
                else map (\<lambda>_. 1 / sqrt (mean var)) var)
      in h_weights h = Some ws \<and> h_data h = map2 (*) raw ws)"

subsection \<open>Example data for ModelInputHandler\<close>

text \<open>A row of five pixels with the values \<open>1, ..., 5\<close>, and the span covering it.\<close>

definition scenarioImage :: "real Image" where
  "scenarioImage =
     \<lparr>getXY0 = (0, 0),
      getArray = \<lparr>arrayHeight = 1, arrayWidth = 5, arrayAt = (\<lambda>r c. [1, 2, 3, 4, 5] ! c)\<rparr>\<rparr>"

definition scenarioRegion :: Footprint where
  "scenarioRegion = [\<lparr>getY = 0, getX0 = 0, getX1 = 4\<rparr>]"

text \<open>
  A masked image of two pixels with values \<open>3, 4\<close>, variances \<open>1, 49\<close> and no mask bit set;
  a box covering it, and a box that reaches one pixel beyond it.
\<close>

definition exampleMasked :: MaskedImage where
  "exampleMasked =
     \<lparr>getImage = \<lparr>getXY0 = (0, 0),
                  getArray = \<lparr>arrayHeight = 1, arrayWidth = 2, arrayAt = (\<lambda>r c. [3, 4] ! c)\<rparr>\<rparr>,
      getMask = \<lparr>getXY0 = (0, 0),
                 getArray = \<lparr>arrayHeight = 1, arrayWidth = 2, arrayAt = (\<lambda>r c. 0)\<rparr>\<rparr>,
      getVariance = \<lparr>getXY0 = (0, 0),
                     getArray = \<lparr>arrayHeight = 1, arrayWidth = 2, arrayAt = (\<lambda>r c. [1, 49] ! c)\<rparr>\<rparr>\<rparr>"

definition exampleBox :: Box2I where
  "exampleBox = \<lparr>getMinX = 0, getMinY = 0, getMaxX = 1, getMaxY = 0\<rparr>"


section \<open>Properties of GaussianModelBuilder\<close>

subsection \<open>The loop of the derivative\<close>

lemma addToColumn_zero: "n < length (columns out) \<Longrightarrow> addToColumn out n (\<lambda>i. 0) = out"
  by (simp add: addToColumn_def map_nth)

lemma addTerm_nth:
  assumes "n < length (columns out)" "length v = length (columns out ! n)"
  shows "addTerm eps j n v (out, None) = (addToColumn out n (\<lambda>i. if \<bar>j\<bar> > eps then v ! i else 0), None)"
proof (cases "\<bar>j\<bar> > eps")
  case True
  have "map2 (+) (columns out ! n) v = map (\<lambda>i. columns out ! n ! i + v ! i) [0..<length (columns out ! n)]"
    using assms(2) by (intro nth_equalityI) simp_all
  with True assms(1) show ?thesis
    by (simp add: addTerm_def colAdd_def addToColumn_def)
next
  case False
  with assms(1) show ?thesis
    by (simp add: addTerm_def addToColumn_zero)
qed

lemma addToColumn_twice:
  assumes "n < length (columns out)"
  shows "addToColumn (addToColumn out n f) n g = addToColumn out n (\<lambda>i. f i + g i)"
proof -
  let ?c = "columns out ! n"
  have h: "map (\<lambda>i. map (\<lambda>i. ?c ! i + f i) [0..<length ?c] ! i + g i) [0..<length ?c] =
        map (\<lambda>i. ?c ! i + (f i + g i)) [0..<length ?c]"
    by (rule map_cong) simp_all
  show ?thesis using assms by (simp add: addToColumn_def h)
qed

lemma addToColumn_length [simp]:
  "length (columns (addToColumn out n f)) = length (columns out)"
  by (simp add: addToColumn_def)

lemma addToColumn_col_length [simp]:
  "n < length (columns out) \<Longrightarrow> length (columns (addToColumn out n f) ! n) = length (columns out ! n)"
  by (simp add: addToColumn_def)

lemma addToColumn_cong:
  assumes "\<And>i. i < length (columns out ! n) \<Longrightarrow> f i = g i"
  shows "addToColumn out n f = addToColumn out n g"
proof -
  have "map (\<lambda>i. columns out ! n ! i + f i) [0..<length (columns out ! n)] =
        map (\<lambda>i. columns out ! n ! i + g i) [0..<length (columns out ! n)]"
    by (rule map_cong) (simp_all add: assms)
  then show ?thesis by (simp only: addToColumn_def)
qed

lemma derivativeColumn_sum:
  assumes n: "n < length (columns out)"
    and l: "length xs = length (columns out ! n)" "length ys = length (columns out ! n)"
      "length dfdx = length (columns out ! n)" "length dfdy = length (columns out ! n)"
  shows "derivativeColumn eps xs ys dfdx dfdy n J (out, None) =
     (addToColumn out n (\<lambda>i. chainSum (threshold6 eps J) (xs ! i) (ys ! i) (dfdx ! i) (dfdy ! i)), None)"
proof -
  have "derivativeColumn eps xs ys dfdx dfdy n J (out, None) =
     (addToColumn out n (\<lambda>i.
        (if \<bar>XX J\<bar> > eps then map2 (\<lambda>x d. XX J * x * d) xs dfdx ! i else 0) +
        (if \<bar>XY J\<bar> > eps then map2 (\<lambda>y d. XY J * y * d) ys dfdx ! i else 0) +
        (if \<bar>X J\<bar> > eps then map (\<lambda>d. X J * d) dfdx ! i else 0) +
        (if \<bar>YX J\<bar> > eps then map2 (\<lambda>x d. YX J * x * d) xs dfdy ! i else 0) +
        (if \<bar>YY J\<bar> > eps then map2 (\<lambda>y d. YY J * y * d) ys dfdy ! i else 0) +
        (if \<bar>Y J\<bar> > eps then map (\<lambda>d. Y J * d) dfdy ! i else 0)), None)"
    unfolding derivativeColumn_def Let_def
    using n l by (simp only: addTerm_nth addToColumn_twice addToColumn_length addToColumn_col_length
        length_map length_zip min.idem)
  also have "addToColumn out n (\<lambda>i.
        (if \<bar>XX J\<bar> > eps then map2 (\<lambda>x d. XX J * x * d) xs dfdx ! i else 0) +
        (if \<bar>XY J\<bar> > eps then map2 (\<lambda>y d. XY J * y * d) ys dfdx ! i else 0) +
        (if \<bar>X J\<bar> > eps then map (\<lambda>d. X J * d) dfdx ! i else 0) +
        (if \<bar>YX J\<bar> > eps then map2 (\<lambda>x d. YX J * x * d) xs dfdy ! i else 0) +
        (if \<bar>YY J\<bar> > eps then map2 (\<lambda>y d. YY J * y * d) ys dfdy ! i else 0) +
        (if \<bar>Y J\<bar> > eps then map (\<lambda>d. Y J * d) dfdy ! i else 0))
     = addToColumn out n (\<lambda>i. chainSum (threshold6 eps J) (xs ! i) (ys ! i) (dfdx ! i) (dfdy ! i))"
    by (rule addToColumn_cong) (use l in \<open>simp add: chainSum_def threshold6_def thr_def\<close>)
  finally show ?thesis .
qed

lemma addToColumn_nth_other:
  "p \<noteq> n \<Longrightarrow> columns (addToColumn out n f) ! p = columns out ! p"
  by (simp add: addToColumn_def)

lemma addToColumn_nth_same:
  "n < length (columns out) \<Longrightarrow>
   columns (addToColumn out n f) ! n = map (\<lambda>i. columns out ! n ! i + f i) [0..<length (columns out ! n)]"
  by (simp add: addToColumn_def)

lemma addToColumn_more [simp]: "getSize0 (addToColumn out n f) = getSize0 out"
  by (simp add: addToColumn_def)

lemma loopResult_Nil: "loopResult eps xs ys dfdx dfdy n [] out = out"
proof -
  have "columns (loopResult eps xs ys dfdx dfdy n [] out) = columns out"
    by (rule nth_equalityI) (auto simp: loopResult_def)
  then show ?thesis by (simp add: loopResult_def)
qed

lemma loopResult_Cons:
  assumes "n < length (columns out)"
  shows "loopResult eps xs ys dfdx dfdy (Suc n) Js
           (addToColumn out n (\<lambda>i. chainSum (threshold6 eps J) (xs ! i) (ys ! i) (dfdx ! i) (dfdy ! i)))
         = loopResult eps xs ys dfdx dfdy n (J # Js) out"
proof -
  let ?f = "\<lambda>i. chainSum (threshold6 eps J) (xs ! i) (ys ! i) (dfdx ! i) (dfdy ! i)"
  let ?o = "addToColumn out n ?f"
  have "columns (loopResult eps xs ys dfdx dfdy (Suc n) Js ?o) =
        columns (loopResult eps xs ys dfdx dfdy n (J # Js) out)"
  proof (rule nth_equalityI)
    show "length (columns (loopResult eps xs ys dfdx dfdy (Suc n) Js ?o)) =
          length (columns (loopResult eps xs ys dfdx dfdy n (J # Js) out))"
      by (simp add: loopResult_def)
  next
    fix p assume "p < length (columns (loopResult eps xs ys dfdx dfdy (Suc n) Js ?o))"
    then have p: "p < length (columns out)" by (simp add: loopResult_def)
    show "columns (loopResult eps xs ys dfdx dfdy (Suc n) Js ?o) ! p =
          columns (loopResult eps xs ys dfdx dfdy n (J # Js) out) ! p"
    proof (cases "p = n")
      case True
      with assms show ?thesis
        by (simp add: loopResult_def addToColumn_nth_same)
    next
      case False
      with p show ?thesis
        by (auto simp add: loopResult_def addToColumn_nth_other Suc_diff_le nth_Cons')
    qed
  qed
  then show ?thesis
    by (simp add: loopResult_def addToColumn_def)
qed

lemma derivativeLoop_result:
  assumes "n + length Js \<le> length (columns out)"
    and "\<forall>p. n \<le> p \<and> p < n + length Js \<longrightarrow> length (columns out ! p) = N"
    and "length xs = N" "length ys = N" "length dfdx = N" "length dfdy = N"
  shows "derivativeLoop eps xs ys dfdx dfdy n Js (out, None) =
         (loopResult eps xs ys dfdx dfdy n Js out, None)"
  using assms
proof (induction Js arbitrary: n out)
  case Nil
  then show ?case by (simp add: loopResult_Nil)
next
  case (Cons J Js)
  let ?f = "\<lambda>i. chainSum (threshold6 eps J) (xs ! i) (ys ! i) (dfdx ! i) (dfdy ! i)"
  from Cons.prems have n: "n < length (columns out)" and ln: "length (columns out ! n) = N"
    by auto
  have step: "derivativeColumn eps xs ys dfdx dfdy n J (out, None) = (addToColumn out n ?f, None)"
    using n ln Cons.prems(3-6) by (simp add: derivativeColumn_sum)
  have "derivativeLoop eps xs ys dfdx dfdy (Suc n) Js (addToColumn out n ?f, None) =
        (loopResult eps xs ys dfdx dfdy (Suc n) Js (addToColumn out n ?f), None)"
  proof (rule Cons.IH)
    show "Suc n + length Js \<le> length (columns (addToColumn out n ?f))"
      using Cons.prems(1) by simp
    show "\<forall>p. Suc n \<le> p \<and> p < Suc n + length Js \<longrightarrow> length (columns (addToColumn out n ?f) ! p) = N"
      using Cons.prems(2) by (auto simp: addToColumn_nth_other)
  qed (use Cons.prems in simp_all)
  with step n show ?case
    by (simp add: loopResult_Cons)
qed

lemma computeModel_lengths [simp]:
  "length (fst (computeModel b e)) = length (xy b)"
  "length (model (snd (computeModel b e))) = length (xy b)"
  "length (xyt (snd (computeModel b e))) = length (xy b)"
  "xy (snd (computeModel b e)) = xy b"
  by (simp_all add: computeModel_def Let_def)

lemma addTerm_no_InvalidParameter:
  "snd st \<noteq> Some (InvalidParameter s g x) \<Longrightarrow> snd (addTerm eps j n v st) \<noteq> Some (InvalidParameter s g x)"
  by (auto simp: addTerm_def colAdd_def split: option.splits)

lemma derivativeColumn_no_InvalidParameter:
  "snd st \<noteq> Some (InvalidParameter s g x) \<Longrightarrow>
   snd (derivativeColumn eps xs ys dfdx dfdy n J st) \<noteq> Some (InvalidParameter s g x)"
  unfolding derivativeColumn_def Let_def
  by (intro addTerm_no_InvalidParameter)

lemma derivativeLoop_no_InvalidParameter:
  "snd st \<noteq> Some (InvalidParameter s g x) \<Longrightarrow>
   snd (derivativeLoop eps xs ys dfdx dfdy n Js st) \<noteq> Some (InvalidParameter s g x)"
  by (induction Js arbitrary: n st) (simp_all add: derivativeColumn_no_InvalidParameter)

lemma InvalidParameter_iff_rows:
  "(\<exists>s g x. snd (snd (computeDerivative_impl b output e jac add reuse)) = Some (InvalidParameter s g x))
   \<longleftrightarrow> getSize0 output \<noteq> length (xy b)"
proof (cases "getSize0 output = length (xy b)")
  case False
  then show ?thesis by (simp add: computeDerivative_impl_def Let_def)
next
  case True
  have "snd (snd (computeDerivative_impl b output e jac add reuse)) \<noteq> Some (InvalidParameter s g x)" for s g x
    using True derivativeLoop_no_InvalidParameter [of "(out, None)" for out]
    by (simp add: computeDerivative_impl_def Let_def)
  with True show ?thesis by simp
qed

lemma setZero_simps [simp]:
  "getSize0 (setZero a) = getSize0 a"
  "length (columns (setZero a)) = length (columns a)"
  "p < length (columns a) \<Longrightarrow> columns (setZero a) ! p = map (\<lambda>_. 0) (columns a ! p)"
  by (simp_all add: setZero_def)

lemma wf_Array2_nth: "wf_Array2 a \<Longrightarrow> p < length (columns a) \<Longrightarrow> length (columns a ! p) = getSize0 a"
  by (simp add: wf_Array2_def list_all_length)

lemma impl_valid:
  assumes wf: "wf_Array2 output" and rows: "getSize0 output = length (xy b)"
    and cols: "length jac \<le> getSize1 output" and avail: "modelAvailable b reuse"
  shows "computeDerivative_impl b output e jac add reuse =
    (let b1 = (if reuse then b else snd (computeModel b e))
     in (b1,
         loopResult (epsilon * lpNorm_Infinity jac) (map fst (xy b)) (map snd (xy b))
           (dfdx_array b1)
           (dfdy_array b1) 0 jac
           (if add then output else setZero output),
         None))"
proof -
  define b1 where "b1 = (if reuse then b else snd (computeModel b e))"
  define out where "out = (if add then output else setZero output)"
  define N where "N = length (xy b)"
  have xy1: "xy b1 = xy b" by (simp add: b1_def)
  have l1: "length (model b1) = N" "length (xyt b1) = N"
    using avail by (auto simp: b1_def N_def modelAvailable_def)
  have c: "0 + length jac \<le> length (columns out)"
    using cols by (simp add: out_def getSize1_def)
  have len: "\<forall>p. 0 \<le> p \<and> p < 0 + length jac \<longrightarrow> length (columns out ! p) = N"
    using wf rows cols by (auto simp: out_def N_def getSize1_def wf_Array2_nth)
  have loop: "derivativeLoop (epsilon * lpNorm_Infinity jac) (map fst (xy b)) (map snd (xy b))
           (dfdx_array b1)
           (dfdy_array b1) 0 jac (out, None) =
        (loopResult (epsilon * lpNorm_Infinity jac) (map fst (xy b)) (map snd (xy b))
           (dfdx_array b1)
           (dfdy_array b1) 0 jac out, None)"
    by (rule derivativeLoop_result [OF c len]) (simp_all add: l1 N_def dfdx_array_def dfdy_array_def)
  have "computeDerivative_impl b output e jac add reuse =
        (b1, fst (derivativeLoop (epsilon * lpNorm_Infinity jac) (map fst (xy b)) (map snd (xy b))
           (dfdx_array b1)
           (dfdy_array b1) 0 jac (out, None)),
         snd (derivativeLoop (epsilon * lpNorm_Infinity jac) (map fst (xy b)) (map snd (xy b))
           (dfdx_array b1)
           (dfdy_array b1) 0 jac (out, None)))"
    using rows l1 xy1 unfolding computeDerivative_impl_def Let_def b1_def [symmetric] out_def N_def
    by (auto simp: b1_def)
  then show ?thesis
    unfolding loop by (simp add: Let_def b1_def out_def)
qed

lemma loopResult_entry:
  assumes "p < length Js" "p < length (columns out)" "i < length (columns out ! p)"
  shows "columns (loopResult eps xs ys dfdx dfdy 0 Js out) ! p ! i =
         columns out ! p ! i + chainSum (threshold6 eps (Js ! p)) (xs ! i) (ys ! i) (dfdx ! i) (dfdy ! i)"
  using assms by (simp add: loopResult_def)

lemma loopResult_shape [simp]:
  "getSize0 (loopResult eps xs ys dfdx dfdy n Js out) = getSize0 out"
  "length (columns (loopResult eps xs ys dfdx dfdy n Js out)) = length (columns out)"
  by (simp_all add: loopResult_def)

lemma loopResult_col_length:
  "p < length (columns out) \<Longrightarrow>
   length (columns (loopResult eps xs ys dfdx dfdy n Js out) ! p) = length (columns out ! p)"
  by (simp add: loopResult_def)

lemma onePixel_simps [simp]:
  "xy onePixel = [(1, 0)]" "xyt onePixel = [(0, 0)]" "model onePixel = []"
  by (simp_all add: onePixel_def GaussianModelBuilder_Footprint_def spanPixels_def)

lemma computeModel_onePixel:
  "computeModel onePixel identityEllipse =
     ([exp (- (1 / 2))], \<lparr>xy = [(1, 0)], xyt = [(1, 0)], model = [exp (- (1 / 2))]\<rparr>)"
  by (simp add: computeModel_def Let_def identityEllipse_def applyTransform_def squaredNorm_def
      onePixel_def GaussianModelBuilder_Footprint_def spanPixels_def)

lemma modelAvailable_False [simp]: "modelAvailable b False"
  by (simp add: modelAvailable_def)

lemma setZero_idem [simp]: "setZero (setZero a) = setZero a"
  by (simp add: setZero_def)

lemma wf_setZero [simp]: "wf_Array2 (setZero a) = wf_Array2 a"
  by (simp add: wf_Array2_def setZero_def list_all_length)

lemma getSize1_setZero [simp]: "getSize1 (setZero a) = getSize1 a"
  by (simp add: getSize1_def)

lemma addTerm_below_zero: "addTerm (- 1) j n v st = addTerm_unconditional n v st"
proof -
  have "- 1 < \<bar>j\<bar>" by linarith
  then show ?thesis by (simp add: addTerm_def addTerm_unconditional_def)
qed

lemma derivativeColumn_below_zero:
  "derivativeColumn (- 1) xs ys dfdx dfdy n J st = derivativeColumn_unconditional xs ys dfdx dfdy n J st"
  by (simp only: derivativeColumn_def derivativeColumn_unconditional_def addTerm_below_zero)

lemma derivativeLoop_below_zero:
  "derivativeLoop (- 1) xs ys dfdx dfdy n Js st = derivativeLoop_unconditional xs ys dfdx dfdy n Js st"
  by (induction Js arbitrary: n st) (simp_all add: derivativeColumn_below_zero)

lemma threshold6_below_zero [simp]: "threshold6 (- 1) J = J"
  by (simp add: threshold6_def thr_def)

lemma thr_clear: "j = 0 \<or> \<bar>j\<bar> > eps \<Longrightarrow> thr eps j = j"
  by (auto simp: thr_def)

lemma threshold6_clear: "clearOfThreshold eps J \<Longrightarrow> threshold6 eps J = J"
  by (simp add: threshold6_def clearOfThreshold_def thr_clear)

lemma loopResult_cong:
  assumes "\<And>p. p < length Js \<Longrightarrow> threshold6 eps (Js ! p) = threshold6 eps' (Js ! p)"
  shows "loopResult eps xs ys dfdx dfdy 0 Js out = loopResult eps' xs ys dfdx dfdy 0 Js out"
proof -
  have "columns (loopResult eps xs ys dfdx dfdy 0 Js out) =
        columns (loopResult eps' xs ys dfdx dfdy 0 Js out)"
    by (rule nth_equalityI) (auto simp: loopResult_def assms)
  then show ?thesis by (simp add: loopResult_def)
qed

lemma unconditional_valid:
  assumes wf: "wf_Array2 output" and rows: "getSize0 output = length (xy b)"
    and cols: "length jac \<le> getSize1 output" and avail: "modelAvailable b reuse"
  shows "computeDerivative_unconditional b output e jac add reuse =
    (let b1 = (if reuse then b else snd (computeModel b e))
     in (b1,
         loopResult (- 1) (map fst (xy b)) (map snd (xy b)) (dfdx_array b1) (dfdy_array b1) 0 jac
           (if add then output else setZero output),
         None))"
proof -
  define b1 where "b1 = (if reuse then b else snd (computeModel b e))"
  define out where "out = (if add then output else setZero output)"
  define N where "N = length (xy b)"
  have xy1: "xy b1 = xy b" by (simp add: b1_def)
  have l1: "length (model b1) = N" "length (xyt b1) = N"
    using avail by (auto simp: b1_def N_def modelAvailable_def)
  have c: "0 + length jac \<le> length (columns out)"
    using cols by (simp add: out_def getSize1_def)
  have len: "\<forall>p. 0 \<le> p \<and> p < 0 + length jac \<longrightarrow> length (columns out ! p) = N"
    using wf rows cols by (auto simp: out_def N_def getSize1_def wf_Array2_nth)
  have loop: "derivativeLoop_unconditional (map fst (xy b)) (map snd (xy b))
           (dfdx_array b1) (dfdy_array b1) 0 jac (out, None) =
        (loopResult (- 1) (map fst (xy b)) (map snd (xy b))
           (dfdx_array b1) (dfdy_array b1) 0 jac out, None)"
    unfolding derivativeLoop_below_zero [symmetric]
    by (rule derivativeLoop_result [OF c len]) (simp_all add: l1 N_def dfdx_array_def dfdy_array_def)
  have "computeDerivative_unconditional b output e jac add reuse =
        (b1, fst (derivativeLoop_unconditional (map fst (xy b)) (map snd (xy b))
           (dfdx_array b1) (dfdy_array b1) 0 jac (out, None)),
         snd (derivativeLoop_unconditional (map fst (xy b)) (map snd (xy b))
           (dfdx_array b1) (dfdy_array b1) 0 jac (out, None)))"
    using rows l1 xy1 unfolding computeDerivative_unconditional_def Let_def b1_def [symmetric] out_def N_def
    by (auto simp: b1_def)
  then show ?thesis
    unfolding loop by (simp add: Let_def b1_def out_def)
qed

lemma invalid_same:
  assumes "getSize0 output \<noteq> length (xy b) \<or> \<not> modelAvailable b reuse"
  shows "computeDerivative_impl b output e jac add reuse =
         computeDerivative_unconditional b output e jac add reuse"
  using assms
  by (auto simp: computeDerivative_impl_def computeDerivative_unconditional_def Let_def modelAvailable_def)

lemma impl_entry:
  assumes v: "validOutput b jac output" and a: "modelAvailable b reuse"
    and p: "p < length jac" and i: "i < length (xy b)"
  shows "columns (fst (snd (computeDerivative_impl b output e jac add reuse))) ! p ! i =
         (if add then columns output ! p ! i else 0) +
         chainSum (threshold6 (epsilon * lpNorm_Infinity jac) (jac ! p))
           (fst (xy b ! i)) (snd (xy b ! i))
           (dfdx_array (if reuse then b else snd (computeModel b e)) ! i)
           (dfdy_array (if reuse then b else snd (computeModel b e)) ! i)"
proof -
  from v have wf: "wf_Array2 output" and rows: "getSize0 output = length (xy b)"
    and cols: "getSize1 output = length jac"
    by (simp_all add: validOutput_def)
  from p cols have pc: "p < length (columns output)" by (simp add: getSize1_def)
  from wf pc rows have lc: "length (columns output ! p) = length (xy b)"
    by (simp add: wf_Array2_nth)
  show ?thesis
    using p pc i lc by (simp add: impl_valid [OF wf rows _ a] cols Let_def loopResult_entry)
qed

lemma unconditional_entry:
  assumes v: "validOutput b jac output" and a: "modelAvailable b reuse"
    and p: "p < length jac" and i: "i < length (xy b)"
  shows "columns (fst (snd (computeDerivative_unconditional b output e jac add reuse))) ! p ! i =
         (if add then columns output ! p ! i else 0) +
         chainSum (jac ! p) (fst (xy b ! i)) (snd (xy b ! i))
           (dfdx_array (if reuse then b else snd (computeModel b e)) ! i)
           (dfdy_array (if reuse then b else snd (computeModel b e)) ! i)"
proof -
  from v have wf: "wf_Array2 output" and rows: "getSize0 output = length (xy b)"
    and cols: "getSize1 output = length jac"
    by (simp_all add: validOutput_def)
  from p cols have pc: "p < length (columns output)" by (simp add: getSize1_def)
  from wf pc rows have lc: "length (columns output ! p) = length (xy b)"
    by (simp add: wf_Array2_nth)
  show ?thesis
    using p pc i lc by (simp add: unconditional_valid [OF wf rows _ a] cols Let_def loopResult_entry)
qed

lemma dfd_computeModel:
  assumes "i < length (xy b)"
  shows "dfdx_array (snd (computeModel b e)) ! i =
           - fst (applyTransform (getGridTransform e) (xy b ! i)) *
             exp (- 0.5 * squaredNorm (applyTransform (getGridTransform e) (xy b ! i)))"
    and "dfdy_array (snd (computeModel b e)) ! i =
           - snd (applyTransform (getGridTransform e) (xy b ! i)) *
             exp (- 0.5 * squaredNorm (applyTransform (getGridTransform e) (xy b ! i)))"
  using assms by (simp_all add: dfdx_array_def dfdy_array_def computeModel_def Let_def)

lemma dfd_onePixel:
  "dfdx_array (snd (computeModel onePixel identityEllipse)) ! 0 = - exp (- (1 / 2))"
  "dfdy_array (snd (computeModel onePixel identityEllipse)) ! 0 = 0"
  by (simp_all add: computeModel_onePixel dfdx_array_def dfdy_array_def)

lemma zero6_sel [simp]:
  "XX zero6 = 0" "XY zero6 = 0" "X zero6 = 0" "YX zero6 = 0" "YY zero6 = 0" "Y zero6 = 0"
  by (simp_all add: zero6_def)

lemma tiny_facts [simp]: "0 < tiny" "tiny < 1" "\<not> epsilon < tiny" "\<bar>tiny\<bar> = tiny" "tiny \<noteq> 0"
  by (simp_all add: tiny_def epsilon_def)

lemma maxAbs6_examples:
  "maxAbs6 (zero6\<lparr>XX := 1\<rparr>) = 1"
  "maxAbs6 (zero6\<lparr>X := tiny\<rparr>) = tiny"
  "maxAbs6 (zero6\<lparr>XX := 1, X := tiny\<rparr>) = 1"
  using tiny_facts(1,2) by (simp_all add: maxAbs6_def)

lemma lpNorm_examples:
  "lpNorm_Infinity [zero6\<lparr>XX := 1\<rparr>, zero6\<lparr>X := tiny\<rparr>] = 1"
  "lpNorm_Infinity [zero6\<lparr>XX := 1, X := tiny\<rparr>] = 1"
  "lpNorm_Infinity [zero6\<lparr>XX := 1\<rparr>] = 1"
  by (simp_all add: lpNorm_Infinity_def maxAbs6_examples)

lemma thr_examples:
  "thr epsilon 1 = 1" "thr epsilon 0 = 0" "thr epsilon tiny = 0"
  by (simp_all add: thr_def) (simp add: epsilon_def)

lemma validOutput_setZero [simp]: "validOutput b jac (setZero output) = validOutput b jac output"
  by (simp add: validOutput_def)

lemma loopResult_add:
  assumes cols: "length (columns output) = length jac"
  shows "loopResult eps xs ys dx dy 0 jac output =
         output\<lparr>columns := map2 (map2 (+)) (columns output)
                     (columns (loopResult eps xs ys dx dy 0 jac (setZero output)))\<rparr>"
proof -
  have "columns (loopResult eps xs ys dx dy 0 jac output) =
        map2 (map2 (+)) (columns output) (columns (loopResult eps xs ys dx dy 0 jac (setZero output)))"
  proof (rule nth_equalityI)
    show "length (columns (loopResult eps xs ys dx dy 0 jac output)) =
          length (map2 (map2 (+)) (columns output)
                    (columns (loopResult eps xs ys dx dy 0 jac (setZero output))))"
      by simp
  next
    fix p assume "p < length (columns (loopResult eps xs ys dx dy 0 jac output))"
    then have p: "p < length (columns output)" by simp
    with cols have pj: "p < length jac" by simp
    have "columns (loopResult eps xs ys dx dy 0 jac output) ! p =
          map2 (+) (columns output ! p) (columns (loopResult eps xs ys dx dy 0 jac (setZero output)) ! p)"
      by (rule nth_equalityI) (use p pj in \<open>simp_all add: loopResult_def\<close>)
    with p show "columns (loopResult eps xs ys dx dy 0 jac output) ! p =
          map2 (map2 (+)) (columns output)
            (columns (loopResult eps xs ys dx dy 0 jac (setZero output))) ! p"
      by simp
  qed
  then show ?thesis by (simp add: loopResult_def)
qed

lemma applyTransform_identity [simp]:
  "applyTransform (getGridTransform identityEllipse) p = p"
  by (simp add: identityEllipse_def applyTransform_def)






text \<open>
  In exact arithmetic a call with \<open>add\<close> set leaves in each entry its prior content plus
  what the same call without \<open>add\<close> writes into a zeroed buffer.
\<close>

lemma exact_accumulation:
  assumes v: "validOutput b jac output" and a: "modelAvailable b reuse"
  shows "snd (snd (computeDerivative_impl b (setZero output) e jac False reuse)) = None \<and>
         computeDerivative_impl b output e jac True reuse =
           (fst (computeDerivative_impl b (setZero output) e jac False reuse),
            output\<lparr>columns := map2 (map2 (+)) (columns output)
               (columns (fst (snd (computeDerivative_impl b (setZero output) e jac False reuse))))\<rparr>,
            None) \<and>
         computeDerivative_impl b output e jac False reuse =
           computeDerivative_impl b (setZero output) e jac False reuse"
proof -
  from v have wf: "wf_Array2 output" and rows: "getSize0 output = length (xy b)"
    and cols: "getSize1 output = length jac"
    by (simp_all add: validOutput_def)
  have wf0: "wf_Array2 (setZero output)" and rows0: "getSize0 (setZero output) = length (xy b)"
    using wf rows by simp_all
  have c: "length jac \<le> getSize1 output" "length jac \<le> getSize1 (setZero output)"
    using cols by simp_all
  have l: "length (columns output) = length jac"
    using cols by (simp add: getSize1_def)
  show ?thesis
    unfolding impl_valid [OF wf rows c(1) a] impl_valid [OF wf0 rows0 c(2) a] Let_def
    using loopResult_add [OF l] by simp
qed

subsection \<open>Rounding and the loop in double arithmetic\<close>

lemma rne_of_int [simp]: "rne (of_int k) = k"
  by (simp add: rne_def)



lemma rne_ge: "of_int a \<le> y \<Longrightarrow> a \<le> rne y"
proof -
  assume a: "of_int a \<le> y"
  then have "a \<le> \<lfloor>y\<rfloor>" by (simp add: le_floor_iff)
  then show ?thesis by (auto simp: rne_def)
qed

lemma rne_le: "y \<le> of_int b \<Longrightarrow> rne y \<le> b"
proof -
  assume b: "y \<le> of_int b"
  show ?thesis
  proof (cases "y = of_int b")
    case True then show ?thesis by simp
  next
    case False
    with b have "y < of_int b" by simp
    then have "\<lfloor>y\<rfloor> < b" by (simp add: floor_less_iff)
    then show ?thesis by (auto simp: rne_def)
  qed
qed

lemma rne_minus: "rne (- y) = - rne y"
proof (cases "y = of_int \<lfloor>y\<rfloor>")
  case True
  then obtain k where "y = of_int k" ..
  then show ?thesis by (simp flip: of_int_minus)
next
  case False
  then have c: "\<lfloor>- y\<rfloor> = - \<lfloor>y\<rfloor> - 1"
    by (intro floor_unique) (use False in \<open>auto simp: \<close>, linarith+)
  have "of_int \<lfloor>y\<rfloor> \<le> y" "y < of_int \<lfloor>y\<rfloor> + 1" by linarith+
  then show ?thesis using False
    by (auto simp: rne_def c)
qed

lemma expo_eq:
  assumes "2 powr of_int e \<le> \<bar>x\<bar>" "\<bar>x\<bar> < 2 powr (of_int e + 1)"
  shows "expo x = e"
proof -
  have "0 < \<bar>x\<bar>" using assms(1) by (smt (verit) powr_gt_zero)
  then show ?thesis
    unfolding expo_def using assms by (simp add: floor_log_eq_powr_iff)
qed

lemma expo_bounds:
  assumes "x \<noteq> 0"
  shows "2 powr of_int (expo x) \<le> \<bar>x\<bar>" "\<bar>x\<bar> < 2 powr (of_int (expo x) + 1)"
proof -
  have "0 < \<bar>x\<bar>" using assms by simp
  from floor_log_eq_powr_iff [OF this, of 2 "expo x"]
  show "2 powr of_int (expo x) \<le> \<bar>x\<bar>" "\<bar>x\<bar> < 2 powr (of_int (expo x) + 1)"
    by (simp_all add: expo_def)
qed

lemma fl_eq:
  assumes "2 powr of_int e \<le> \<bar>x\<bar>" "\<bar>x\<bar> < 2 powr (of_int e + 1)"
  shows "fl x = of_int (rne (x / 2 powr (of_int e - 52))) * 2 powr (of_int e - 52)"
proof -
  have "x \<noteq> 0" using assms(1) by (smt (verit) powr_gt_zero abs_zero)
  then show ?thesis by (simp add: fl_def ulp_def expo_eq [OF assms])
qed

lemma fl_representable:
  assumes "2 ^ 52 \<le> \<bar>k\<bar>" "\<bar>k\<bar> < 2 ^ 53"
  shows "fl (of_int k * 2 powr of_int e) = of_int k * 2 powr of_int e"
proof -
  let ?x = "of_int k * 2 powr of_int e :: real"
  have k1: "(2::real) ^ 52 \<le> \<bar>of_int k\<bar>"
    using assms(1) by (metis of_int_abs of_int_le_iff of_int_numeral of_int_power)
  have k2: "\<bar>of_int k :: real\<bar> < 2 ^ 53"
    using assms(2) by (metis of_int_abs of_int_less_iff of_int_numeral of_int_power)
  have p52: "2 powr of_int (e + 52) = 2 powr of_int e * (2::real) ^ 52"
    by (simp add: powr_add)
  have p53: "2 powr (of_int (e + 52) + 1) = 2 powr of_int e * (2::real) ^ 53"
    by (simp add: powr_add)
  have a: "2 powr of_int (e + 52) \<le> \<bar>?x\<bar>"
    unfolding p52 using k1 by (simp add: abs_mult mult.commute)
  have b: "\<bar>?x\<bar> < 2 powr (of_int (e + 52) + 1)"
    unfolding p53 using k2 by (simp add: abs_mult mult.commute)
  have "fl ?x = of_int (rne (?x / 2 powr (of_int (e + 52) - 52))) * 2 powr (of_int (e + 52) - 52)"
    by (rule fl_eq [OF a b])
  then show ?thesis by simp
qed

lemma fl_idem [simp]: "fl (fl x) = fl x"
proof (cases "x = 0")
  case True
  then show ?thesis by (simp add: fl_def)
next
  case False
  define e where "e = expo x"
  define u :: real where "u = 2 powr (of_int e - 52)"
  define k where "k = rne (x / u)"
  have u: "0 < u" by (simp add: u_def)
  have flx: "fl x = of_int k * u"
    using False by (simp add: fl_def ulp_def e_def u_def k_def)
  have ue: "2 powr of_int e = u * 2 ^ 52" "2 powr (of_int e + 1) = u * 2 ^ 53"
    by (simp_all add: u_def powr_diff powr_add)
  from expo_bounds [OF False] have xb: "u * 2 ^ 52 \<le> \<bar>x\<bar>" "\<bar>x\<bar> < u * 2 ^ 53"
    by (simp_all only: e_def [symmetric] ue)
  have ab: "\<bar>x / u\<bar> = \<bar>x\<bar> / u" using u by simp
  have y: "2 ^ 52 \<le> \<bar>x / u\<bar>" "\<bar>x / u\<bar> < 2 ^ 53"
    unfolding ab using u xb by (simp_all add: pos_le_divide_eq pos_divide_less_eq mult.commute)
  have u2: "u = 2 powr of_int (e - 52)" by (simp add: u_def)
  have u3: "u * 2 = 2 powr of_int (e - 51)" by (simp add: u_def powr_diff)
  have kk: "2 ^ 52 \<le> \<bar>k\<bar> \<and> \<bar>k\<bar> \<le> 2 ^ 53"
  proof (cases "0 \<le> x / u")
    case True
    with y have "of_int (2 ^ 52) \<le> x / u" "x / u \<le> of_int (2 ^ 53)" by simp_all
    then have "2 ^ 52 \<le> k" "k \<le> 2 ^ 53" unfolding k_def by (simp_all only: rne_ge rne_le)
    then show ?thesis by simp
  next
    case False
    with y have "of_int (- (2 ^ 53)) \<le> x / u" "x / u \<le> of_int (- (2 ^ 52))" by simp_all
    then have "- (2 ^ 53) \<le> k" "k \<le> - (2 ^ 52)" unfolding k_def by (simp_all only: rne_ge rne_le)
    then show ?thesis by simp
  qed
  show ?thesis
  proof (cases "\<bar>k\<bar> < 2 ^ 53")
    case True
    with kk have "fl (of_int k * 2 powr of_int (e - 52)) = of_int k * 2 powr of_int (e - 52)"
      by (intro fl_representable) simp_all
    then show ?thesis unfolding flx u2 .
  next
    case False
    with kk have "\<bar>k\<bar> = 2 ^ 53" by simp
    then consider "k = 2 ^ 53" | "k = - (2 ^ 53)" by (auto simp: abs_if split: if_splits)
    then show ?thesis
    proof cases
      case 1
      have "real_of_int k * u = of_int (2 ^ 52) * (u * 2)"
        unfolding 1 by simp
      moreover have "fl (of_int (2 ^ 52) * 2 powr of_int (e - 51)) = of_int (2 ^ 52) * 2 powr of_int (e - 51)"
        by (rule fl_representable) simp_all
      ultimately show ?thesis unfolding flx u3 by (simp only:)
    next
      case 2
      have "real_of_int k * u = of_int (- (2 ^ 52)) * (u * 2)"
        unfolding 2 by simp
      moreover have "fl (of_int (- (2 ^ 52)) * 2 powr of_int (e - 51)) = of_int (- (2 ^ 52)) * 2 powr of_int (e - 51)"
        by (rule fl_representable) simp_all
      ultimately show ?thesis unfolding flx u3 by (simp only:)
    qed
  qed
qed











lemma updColumn_more [simp]: "getSize0 (updColumn out n f) = getSize0 out"
  by (simp add: updColumn_def)




lemma computeModel_double_lengths [simp]:
  "length (fst (computeModel_double b e)) = length (xy b)"
  "length (model (snd (computeModel_double b e))) = length (xy b)"
  "length (xyt (snd (computeModel_double b e))) = length (xy b)"
  "xy (snd (computeModel_double b e)) = xy b"
  by (simp_all add: computeModel_double_def Let_def)



lemma loopResult_double_shape [simp]:
  "getSize0 (loopResult_double eps xs ys dfdx dfdy n Js out) = getSize0 out"
  "length (columns (loopResult_double eps xs ys dfdx dfdy n Js out)) = length (columns out)"
  by (simp_all add: loopResult_double_def)



lemma expo_minus [simp]: "expo (- x) = expo x"
  by (simp add: expo_def)

lemma fl_minus: "fl (- x) = - fl x"
  by (simp add: fl_def ulp_def rne_minus)

lemma fl_zero [simp]: "fl 0 = 0"
  by (simp add: fl_def)



lemma fl_pow2: "fl (2 powr of_int e) = 2 powr of_int e"
proof -
  have "fl (of_int (2 ^ 52) * 2 powr of_int (e - 52)) = of_int (2 ^ 52) * 2 powr of_int (e - 52)"
    by (rule fl_representable) simp_all
  moreover have "of_int (2 ^ 52) * 2 powr of_int (e - 52) = (2::real) powr of_int e"
    by (simp add: powr_diff)
  ultimately show ?thesis by simp
qed

lemma fl_numerals [simp]:
  "fl 1 = 1" "fl (1 / 2) = 1 / 2" "fl (2 ^ 54) = 2 ^ 54" "fl epsilon = epsilon"
proof -
  show "fl 1 = 1" using fl_pow2 [of 0] by simp
  show "fl (1 / 2) = 1 / 2" using fl_pow2 [of "- 1"] by (simp add: powr_minus_divide)
  have "(2::real) powr of_int 54 = 2 ^ 54"
    by (simp only: of_int_numeral powr_numeral)
  then show "fl (2 ^ 54) = 2 ^ 54" using fl_pow2 [of 54] by (simp only:)
  have "(2::real) powr of_int (- 52) = 1 / 2 ^ 52"
    by (simp only: of_int_minus of_int_numeral powr_minus_divide powr_numeral)
  then show "fl epsilon = epsilon" using fl_pow2 [of "- 52"] by (simp only: epsilon_def)
qed



lemma fl_dexp [simp]: "fl (dexp x) = dexp x" "fl (- dexp x) = - dexp x"
  by (simp_all add: dexp_def fl_minus)






subsection \<open>Results\<close>



text \<open>
  C1. The claim: a call fails with InvalidParameter exactly when the output's row count
  differs from the number of pixels or its column count differs from the Jacobian's. The
  code repeats the row test where the column test belongs, so a buffer with the right
  number of rows and a wrong number of columns is accepted: here one pixel, a \<open>1 \<times> 3\<close>
  buffer and a Jacobian of two columns, and no error.
\<close>

theorem column_count_not_checked:
  "snd (snd (computeDerivative_impl onePixel \<lparr>getSize0 = 1, columns = [[0], [0], [0]]\<rparr>
               identityEllipse [zero6\<lparr>XX := 1\<rparr>, zero6\<lparr>X := 1\<rparr>] False False)) = None"
proof -
  have "wf_Array2 \<lparr>getSize0 = 1, columns = [[0], [0], [0]]\<rparr>"
    by (simp add: wf_Array2_def)
  then show ?thesis
    by (subst impl_valid) (simp_all add: getSize1_def Let_def)
qed

text \<open>
  C10. Whenever \<open>_computeDerivative\<close> raises InvalidParameter the output buffer is as the
  caller passed it, and unless \<open>reuseModel\<close> was set the builder already holds the model and
  the transformed coordinates of the new ellipse.
\<close>

theorem invalidParameter_output_untouched:
  assumes "snd (snd (computeDerivative_impl b output e jac add reuse)) = Some (InvalidParameter s g x)"
  shows "fst (snd (computeDerivative_impl b output e jac add reuse)) = output \<and>
         fst (computeDerivative_impl b output e jac add reuse) =
           (if reuse then b else snd (computeModel b e)) \<and>
         (\<not> reuse \<longrightarrow>
            model (fst (computeDerivative_impl b output e jac add reuse)) =
              map (\<lambda>p. exp (- 0.5 * squaredNorm (applyTransform (getGridTransform e) p))) (xy b) \<and>
            xyt (fst (computeDerivative_impl b output e jac add reuse)) =
              map (applyTransform (getGridTransform e)) (xy b))"
proof -
  from assms have "getSize0 output \<noteq> length (xy b)"
    using InvalidParameter_iff_rows [of b "output" e jac add reuse] by blast
  then show ?thesis
    by (simp add: computeDerivative_impl_def Let_def computeModel_def)
qed

theorem invalidParameter_output_untouched_witness:
  "snd (snd (computeDerivative_impl onePixel \<lparr>getSize0 = 2, columns = [[3, 4]]\<rparr> identityEllipse
               [zero6\<lparr>XX := 1\<rparr>] False False))
     = Some (InvalidParameter ''Incorrect number of rows for array: got %d, expected %d'' 2 1) \<and>
   fst (snd (computeDerivative_impl onePixel \<lparr>getSize0 = 2, columns = [[3, 4]]\<rparr> identityEllipse
               [zero6\<lparr>XX := 1\<rparr>] False False)) = \<lparr>getSize0 = 2, columns = [[3, 4]]\<rparr> \<and>
   model onePixel = [] \<and>
   model (fst (computeDerivative_impl onePixel \<lparr>getSize0 = 2, columns = [[3, 4]]\<rparr> identityEllipse
               [zero6\<lparr>XX := 1\<rparr>] False False)) = [exp (- (1 / 2))]"
proof -
  have e: "snd (snd (computeDerivative_impl onePixel \<lparr>getSize0 = 2, columns = [[3, 4]]\<rparr> identityEllipse
               [zero6\<lparr>XX := 1\<rparr>] False False))
     = Some (InvalidParameter ''Incorrect number of rows for array: got %d, expected %d'' 2 1)"
    by (simp add: computeDerivative_impl_def Let_def computeModel_onePixel)
  have m: "map (\<lambda>p. exp (- 0.5 * squaredNorm (applyTransform (getGridTransform identityEllipse) p)))
             (xy onePixel) = [exp (- (1 / 2))]"
    by (simp add: identityEllipse_def applyTransform_def squaredNorm_def)
  from invalidParameter_output_untouched [OF e] show ?thesis
    unfolding m using e by (simp add: computeModel_onePixel)
qed




text \<open>
  C7. The claim: the derivative computed with the sparsity test equals the one computed
  with all six terms performed. This fails when a Jacobian entry is not zero and does not
  exceed the threshold (second theorem below: one pixel, entries \<open>1\<close> and \<open>2^-60\<close>). The two
  agree whenever every entry is zero or exceeds the threshold and the buffer has one column
  per Jacobian column.
\<close>

theorem skip_agrees_when_clear:
  assumes "wf_Array2 output" and "getSize1 output = length jac"
    and "list_all (clearOfThreshold (epsilon * lpNorm_Infinity jac)) jac"
  shows "computeDerivative_impl b output e jac add reuse =
         computeDerivative_unconditional b output e jac add reuse"
proof (cases "getSize0 output = length (xy b) \<and> modelAvailable b reuse")
  case False
  then show ?thesis by (intro invalid_same) auto
next
  case True
  have "loopResult (epsilon * lpNorm_Infinity jac) xs ys dx dy 0 jac out =
        loopResult (- 1) xs ys dx dy 0 jac out" for xs ys dx dy out
    using assms(3) by (intro loopResult_cong) (simp add: list_all_length threshold6_clear)
  with True assms(1,2) show ?thesis
    by (simp add: impl_valid unconditional_valid)
qed

theorem skip_agrees_when_clear_witness:
  "computeDerivative_impl onePixel \<lparr>getSize0 = 1, columns = [[0]]\<rparr> identityEllipse
     [zero6\<lparr>XX := 1\<rparr>] False False
   = computeDerivative_unconditional onePixel \<lparr>getSize0 = 1, columns = [[0]]\<rparr> identityEllipse
     [zero6\<lparr>XX := 1\<rparr>] False False"
proof -
  have 1: "wf_Array2 \<lparr>getSize0 = 1, columns = [[0]]\<rparr>"
    by (simp add: wf_Array2_def)
  have 2: "getSize1 \<lparr>getSize0 = 1, columns = [[0]]\<rparr> = length [zero6\<lparr>XX := 1\<rparr>]"
    by (simp add: getSize1_def)
  have 3: "list_all (clearOfThreshold (epsilon * lpNorm_Infinity [zero6\<lparr>XX := 1\<rparr>])) [zero6\<lparr>XX := 1\<rparr>]"
    by (simp add: lpNorm_examples clearOfThreshold_def epsilon_def)
  show ?thesis by (rule skip_agrees_when_clear [OF 1 2 3])
qed

theorem skip_observable:
  "computeDerivative_impl onePixel \<lparr>getSize0 = 1, columns = [[0], [0]]\<rparr> identityEllipse
     [zero6\<lparr>XX := 1\<rparr>, zero6\<lparr>X := tiny\<rparr>] False False
   \<noteq> computeDerivative_unconditional onePixel \<lparr>getSize0 = 1, columns = [[0], [0]]\<rparr> identityEllipse
     [zero6\<lparr>XX := 1\<rparr>, zero6\<lparr>X := tiny\<rparr>] False False"
proof -
  let ?out = "\<lparr>getSize0 = 1, columns = [[0], [0]]\<rparr>"
  let ?jac = "[zero6\<lparr>XX := 1\<rparr>, zero6\<lparr>X := tiny\<rparr>]"
  have v: "validOutput onePixel ?jac ?out"
    by (simp add: validOutput_def wf_Array2_def getSize1_def)
  have A: "columns (fst (snd (computeDerivative_impl onePixel ?out identityEllipse ?jac False False))) ! 1 ! 0 = 0"
    by (subst impl_entry [OF v])
      (simp_all add: lpNorm_examples threshold6_def thr_examples chainSum_def)
  have B: "columns (fst (snd (computeDerivative_unconditional onePixel ?out identityEllipse ?jac False False))) ! 1 ! 0
        = - (tiny * exp (- (1 / 2)))"
    by (subst unconditional_entry [OF v])
      (simp_all add: chainSum_def dfd_onePixel)
  have C: "- (tiny * exp (- (1 / 2))) \<noteq> 0"
    by simp
  show ?thesis
  proof
    assume "computeDerivative_impl onePixel ?out identityEllipse ?jac False False =
            computeDerivative_unconditional onePixel ?out identityEllipse ?jac False False"
    with A B have "- (tiny * exp (- (1 / 2))) = 0" by (simp only:)
    with C show False ..
  qed
qed




section \<open>Properties of PackedIndex\<close>

lemma triangle_step: "(n + 1) * (n + 1 + 1) div 2 = n * (n + 1) div 2 + n + (1::int)"
proof -
  have "(n + 1) * (n + 1 + 1) = n * (n + 1) + 2 * (n + 1)" by (simp add: algebra_simps)
  then show ?thesis by simp
qed

lemma triangle_ge: "0 \<le> n \<Longrightarrow> n \<le> n * (n + 1) div (2::int)"
proof -
  assume n: "0 \<le> n"
  have "even (n * (n + 1))" by simp
  then obtain k where k: "n * (n + 1) = 2 * k" by (elim evenE)
  have "2 * n \<le> n * (n + 1)"
  proof (cases "n = 0")
    case False
    with n have "1 \<le> n" by simp
    then have "n * 2 \<le> n * (n + 1)" using n by (intro mult_left_mono) simp_all
    then show ?thesis by (simp add: mult.commute)
  qed simp
  with k show ?thesis by simp
qed

lemma packedInv_bounds:
  assumes "packedInv s"
  shows "0 \<le> p_n s" "p_n s \<le> p_i s" "p_x s \<le> p_n s" "p_y s \<le> p_n s" "0 \<le> p_i s"
proof -
  from assms have a: "0 \<le> p_x s" "0 \<le> p_y s" "p_n s = p_x s + p_y s"
    "p_i s = p_n s * (p_n s + 1) div 2 + p_x s"
    by (simp_all add: packedInv_def)
  show n0: "0 \<le> p_n s" using a by simp
  show "p_n s \<le> p_i s" using triangle_ge [OF n0] a by simp
  then show "0 \<le> p_i s" using n0 by simp
  show "p_x s \<le> p_n s" "p_y s \<le> p_n s" using a by simp_all
qed

lemma increment_inv:
  assumes inv: "packedInv s" and lt: "p_i s < INT_MAX"
  shows "increment s = Some (nextState s)"
proof -
  note b = packedInv_bounds [OF inv]
  from inv have y0: "0 \<le> p_y s" by (simp add: packedInv_def)
  have c1: "checked (p_i s + 1) = Some (p_i s + 1)"
    using b lt by (simp add: checked_def INT_MIN_def)
  have c2: "checked (p_y s - 1) = Some (p_y s - 1)"
    using b lt y0 by (simp add: checked_def INT_MIN_def)
  have c3: "checked (p_n s + 1) = Some (p_n s + 1)"
    using b lt by (simp add: checked_def INT_MIN_def)
  have c4: "checked (p_x s + 1) = Some (p_x s + 1)"
    using b lt inv by (simp add: checked_def INT_MIN_def packedInv_def)
  show ?thesis
    using y0 by (auto simp: increment_def c1 c2 c3 c4 nextState_def)
qed

lemma nextState_inv:
  assumes "packedInv s"
  shows "packedInv (nextState s)"
proof (cases "p_y s = 0")
  case True
  with assms have "p_n s = p_x s" "0 \<le> p_n s" "p_i s = p_n s * (p_n s + 1) div 2 + p_n s"
    by (simp_all add: packedInv_def)
  with True show ?thesis
    using triangle_step [of "p_n s"] by (simp add: packedInv_def nextState_def)
next
  case False
  with assms show ?thesis
    by (simp add: packedInv_def nextState_def)
qed

lemma increment_overflow: "p_i s = INT_MAX \<Longrightarrow> increment s = None"
  by (simp add: increment_def checked_def)

lemma packedInv_mkState: "packedInv s \<Longrightarrow> s = mkState (p_n s) (p_x s)"
  by (simp add: packedInv_def mkState_def)

lemma triangle_mono:
  assumes "0 \<le> a" "a \<le> (b::int)"
  shows "a * (a + 1) div 2 \<le> b * (b + 1) div 2"
proof -
  have "a * (a + 1) \<le> b * (b + 1)"
    using assms by (intro mult_mono) simp_all
  then show ?thesis by (rule zdiv_mono1) simp
qed

lemma basisSize_triangle: "basisSize M = (M + 1) * (M + 1 + 1) div 2"
proof -
  have "M + 1 + 1 = M + 2" by simp
  then show ?thesis by (simp only: basisSize_def)
qed

lemma index_at_row_start:
  assumes "packedInv s" "p_n s = M + 1" "p_x s = 0"
  shows "p_i s = basisSize M"
proof -
  from assms(1) have "p_i s = p_n s * (p_n s + 1) div 2 + p_x s"
    by (simp add: packedInv_def)
  then have "p_i s = (M + 1) * (M + 1 + 1) div 2"
    by (simp only: assms(2,3) add_0_right)
  then show ?thesis by (simp only: basisSize_triangle)
qed

lemma index_bound:
  assumes inv: "packedInv s" and le: "p_n s \<le> M"
  shows "p_i s < basisSize M"
proof -
  note b = packedInv_bounds [OF inv]
  from inv have "p_i s = p_n s * (p_n s + 1) div 2 + p_x s" by (simp add: packedInv_def)
  also have "\<dots> \<le> p_n s * (p_n s + 1) div 2 + p_n s" using b by simp
  also have "\<dots> < (p_n s + 1) * (p_n s + 1 + 1) div 2" by (simp only: triangle_step)
  also have "\<dots> \<le> (M + 1) * (M + 1 + 1) div 2"
    using b le by (intro triangle_mono) simp_all
  finally show ?thesis by (simp only: basisSize_triangle)
qed

lemma nextState_fields:
  "p_n (nextState s) = (if p_y s = 0 then p_n s + 1 else p_n s)"
  "p_x (nextState s) = (if p_y s = 0 then 0 else p_x s + 1)"
  "p_i (nextState s) = p_i s + 1"
  by (simp_all add: nextState_def)

lemma statesFrom_last: "statesFrom M M M = [mkState M M]"
  by (simp add: statesFrom_def)

lemma statesFrom_row_end:
  assumes "n + 1 \<le> M"
  shows "statesFrom M n n = mkState n n # statesFrom M (n + 1) 0"
proof -
  have "[n + 1..M] = (n + 1) # [n + 1 + 1..M]"
    using assms by (simp add: upto_rec1)
  then show ?thesis
    by (simp add: statesFrom_def rowStates_def)
qed

lemma statesFrom_in_row:
  assumes "x < n"
  shows "statesFrom M n x = mkState n x # statesFrom M n (x + 1)"
proof -
  have "[x..n] = x # [x + 1..n]"
    using assms by (simp add: upto_rec1)
  then show ?thesis
    by (simp add: statesFrom_def)
qed

lemma traverse_done: "M < p_n s \<Longrightarrow> traverse M s = Some []"
  by (subst traverse.simps) simp

lemma traverse_step:
  "p_n s \<le> M \<Longrightarrow> increment s = Some s' \<Longrightarrow> traverse M s = map_option ((#) s) (traverse M s')"
  by (subst traverse.simps) simp

lemma traverse_overflow: "p_n s \<le> M \<Longrightarrow> increment s = None \<Longrightarrow> traverse M s = None"
  by (subst traverse.simps) simp

lemma traverse_closed_form:
  assumes "packedInv s" "p_n s \<le> M" "basisSize M \<le> INT_MAX"
  shows "traverse M s = Some (statesFrom M (p_n s) (p_x s))"
  using assms
proof (induction M s rule: traverse.induct)
  case (1 M s)
  note inv = \<open>packedInv s\<close> and le = \<open>p_n s \<le> M\<close> and bound = \<open>basisSize M \<le> INT_MAX\<close>
  have lt: "p_i s < INT_MAX"
    using index_bound [OF inv le] bound by simp
  have inc: "increment s = Some (nextState s)"
    by (rule increment_inv [OF inv lt])
  have inv': "packedInv (nextState s)"
    by (rule nextState_inv [OF inv])
  have s: "s = mkState (p_n s) (p_x s)"
    by (rule packedInv_mkState [OF inv])
  from inv have xy: "p_n s = p_x s + p_y s" "0 \<le> p_y s" by (simp_all add: packedInv_def)
  have step: "traverse M s = map_option ((#) s) (traverse M (nextState s))"
    by (rule traverse_step [OF le inc])
  show ?case
  proof (cases "p_y s = 0")
    case y0: True
    with xy have xn: "p_x s = p_n s" by simp
    show ?thesis
    proof (cases "p_n s = M")
      case True
      then have "traverse M (nextState s) = Some []"
        using y0 by (intro traverse_done) (simp add: nextState_fields)
      with step have "traverse M s = Some [s]" by simp
      also have "[s] = statesFrom M (p_n s) (p_x s)"
        using s True xn by (simp add: statesFrom_last)
      finally show ?thesis .
    next
      case False
      with le have le': "p_n s + 1 \<le> M" by simp
      then have "p_n (nextState s) \<le> M" using y0 by (simp add: nextState_fields)
      from "1.IH" [OF le inc inv' this bound]
      have "traverse M (nextState s) = Some (statesFrom M (p_n s + 1) 0)"
        using y0 by (simp add: nextState_fields)
      with step have "traverse M s = Some (s # statesFrom M (p_n s + 1) 0)" by simp
      also have "s # statesFrom M (p_n s + 1) 0 = statesFrom M (p_n s) (p_x s)"
        using statesFrom_row_end [OF le'] s xn by simp
      finally show ?thesis .
    qed
  next
    case False
    with xy have xlt: "p_x s < p_n s" by simp
    have "p_n (nextState s) \<le> M" using False le by (simp add: nextState_fields)
    from "1.IH" [OF le inc inv' this bound]
    have "traverse M (nextState s) = Some (statesFrom M (p_n s) (p_x s + 1))"
      using False by (simp add: nextState_fields)
    with step have "traverse M s = Some (s # statesFrom M (p_n s) (p_x s + 1))" by simp
    also have "s # statesFrom M (p_n s) (p_x s + 1) = statesFrom M (p_n s) (p_x s)"
      using statesFrom_in_row [OF xlt] s by simp
    finally show ?thesis .
  qed
qed

lemma traverse_indices:
  assumes "packedInv s" "p_n s \<le> M + 1" "p_n s = M + 1 \<longrightarrow> p_x s = 0"
    "traverse M s = Some l"
  shows "map p_i l = [p_i s..basisSize M - 1]"
  using assms
proof (induction M s arbitrary: l rule: traverse.induct)
  case (1 M s)
  note inv = \<open>packedInv s\<close>
  show ?case
  proof (cases "p_n s \<le> M")
    case False
    with "1.prems" have n: "p_n s = M + 1" and x: "p_x s = 0" by simp_all
    from inv n x have "p_i s = basisSize M"
      by (rule index_at_row_start)
    moreover from False "1.prems"(4) have "l = []"
      by (simp add: traverse_done)
    ultimately show ?thesis by simp
  next
    case le: True
    from "1.prems"(4) le obtain s' where inc: "increment s = Some s'"
      by (cases "increment s") (simp_all add: traverse_overflow)
    have "p_i s < INT_MAX"
    proof (rule ccontr)
      assume "\<not> p_i s < INT_MAX"
      moreover have "p_i s + 1 \<le> INT_MAX"
        using inc by (auto simp: increment_def checked_def split: option.splits if_splits)
      ultimately show False by simp
    qed
    from increment_inv [OF inv this] inc have s': "s' = nextState s" by simp
    from "1.prems"(4) traverse_step [OF le inc] obtain l' where
      l': "traverse M s' = Some l'" and l: "l = s # l'"
      by auto
    have inv': "packedInv s'" unfolding s' by (rule nextState_inv [OF inv])
    from inv have xy: "p_n s = p_x s + p_y s" "0 \<le> p_y s" by (simp_all add: packedInv_def)
    have a: "p_n s' \<le> M + 1" using le by (simp add: s' nextState_fields)
    have b: "p_n s' = M + 1 \<longrightarrow> p_x s' = 0" using le by (simp add: s' nextState_fields)
    from "1.IH" [OF le inc inv' a b l']
    have "map p_i l' = [p_i s + 1..basisSize M - 1]"
      by (simp add: s' nextState_fields)
    moreover have "p_i s \<le> basisSize M - 1"
      using index_bound [OF inv le] by simp
    ultimately show ?thesis
      by (simp add: l upto_rec1)
  qed
qed

lemma traverse_overflows:
  assumes "packedInv s" "p_n s \<le> M" "p_i s \<le> INT_MAX" "INT_MAX < basisSize M"
  shows "traverse M s = None"
  using assms
proof (induction M s rule: traverse.induct)
  case (1 M s)
  note inv = \<open>packedInv s\<close> and le = \<open>p_n s \<le> M\<close>
  show ?case
  proof (cases "p_i s = INT_MAX")
    case True
    then show ?thesis
      by (intro traverse_overflow [OF le] increment_overflow)
  next
    case False
    with "1.prems"(3) have lt: "p_i s < INT_MAX" by simp
    have inc: "increment s = Some (nextState s)"
      by (rule increment_inv [OF inv lt])
    have inv': "packedInv (nextState s)"
      by (rule nextState_inv [OF inv])
    have i': "p_i (nextState s) \<le> INT_MAX"
      using lt by (simp add: nextState_fields)
    have n': "p_n (nextState s) \<le> M"
    proof (rule ccontr)
      assume "\<not> p_n (nextState s) \<le> M"
      with le have n: "p_n (nextState s) = M + 1" and y: "p_y s = 0"
        by (auto simp: nextState_fields split: if_splits)
      then have "p_x (nextState s) = 0" by (simp add: nextState_fields)
      with inv' n have "p_i (nextState s) = basisSize M"
        by (intro index_at_row_start)
      with i' "1.prems"(4) show False by simp
    qed
    from "1.IH" [OF le inc inv' n' i' "1.prems"(4)]
    show ?thesis
      by (simp add: traverse_step [OF le inc])
  qed
qed

lemma origin_inv: "packedInv PackedIndex_origin"
  by (simp add: packedInv_def PackedIndex_origin_def)

lemma origin_fields [simp]:
  "p_n PackedIndex_origin = 0" "p_x PackedIndex_origin = 0" "p_i PackedIndex_origin = 0"
  by (simp_all add: PackedIndex_origin_def)

lemma statesFrom_origin:
  assumes "0 \<le> M"
  shows "statesFrom M 0 0 = concat (map rowStates [0..M])"
proof -
  have "[0..M] = 0 # [0 + 1..M]" using assms by (simp add: upto_rec1)
  then show ?thesis by (simp add: statesFrom_def rowStates_def)
qed

lemma rowStates_pairs: "map (\<lambda>s. (p_x s, p_y s)) (rowStates m) = orderRow m"
  by (simp add: rowStates_def orderRow_def mkState_def)

lemma states_pairs:
  assumes "0 \<le> M"
  shows "map (\<lambda>s. (p_x s, p_y s)) (statesFrom M 0 0) = canonicalOrder M"
proof -
  have "map (\<lambda>s. (p_x s, p_y s)) (concat (map rowStates [0..M])) =
        concat (map (\<lambda>m. map (\<lambda>s. (p_x s, p_y s)) (rowStates m)) [0..M])"
    by (simp add: map_concat comp_def)
  then show ?thesis
    by (simp add: statesFrom_origin [OF assms] rowStates_pairs canonicalOrder_def)
qed

lemma mkState_formula:
  "p_i (mkState m x) = (p_x (mkState m x) + p_y (mkState m x)) *
      (p_x (mkState m x) + p_y (mkState m x) + 1) div 2 + p_x (mkState m x) \<and>
   p_n (mkState m x) = p_x (mkState m x) + p_y (mkState m x)"
  by (simp add: mkState_def)

lemma states_formula:
  assumes "s \<in> set (statesFrom M n x)"
  shows "p_i s = (p_x s + p_y s) * (p_x s + p_y s + 1) div 2 + p_x s \<and> p_n s = p_x s + p_y s"
proof -
  from assms obtain m x' where "s = mkState m x'"
    by (auto simp: statesFrom_def rowStates_def)
  then show ?thesis by (simp only: mkState_formula)
qed

lemma set_canonicalOrder:
  "set (canonicalOrder M) = {(x, y). 0 \<le> x \<and> 0 \<le> y \<and> x + y \<le> M}"
proof
  show "set (canonicalOrder M) \<subseteq> {(x, y). 0 \<le> x \<and> 0 \<le> y \<and> x + y \<le> M}"
    by (auto simp: canonicalOrder_def orderRow_def)
next
  show "{(x, y). 0 \<le> x \<and> 0 \<le> y \<and> x + y \<le> M} \<subseteq> set (canonicalOrder M)"
  proof clarify
    fix x y :: int
    assume "0 \<le> x" "0 \<le> y" "x + y \<le> M"
    then have "x + y \<in> set [0..M]" and "(x, y) \<in> set (orderRow (x + y))"
      by (simp_all add: orderRow_def image_iff)
    then show "(x, y) \<in> set (canonicalOrder M)"
      unfolding canonicalOrder_def set_concat set_map by blast
  qed
qed

lemma basisSize_fits:
  assumes "0 \<le> M" "M \<le> 65534"
  shows "basisSize M \<le> INT_MAX"
proof -
  have "(M + 1) * (M + 1 + 1) div 2 \<le> 65535 * (65535 + 1) div 2"
    using assms by (intro triangle_mono) simp_all
  then show ?thesis
    by (simp add: basisSize_triangle INT_MAX_def)
qed

text \<open>
  C6. The claim is made for every order \<open>M \<ge> 0\<close>. The fields are \<open>int\<close>s, and for \<open>M = 65535\<close>
  the last index, \<open>(M+1)(M+2)/2 - 1\<close>, is larger than the largest \<open>int\<close>: the traversal
  overflows \<open>_i\<close> (third theorem below). For \<open>0 \<le> M \<le> 65534\<close> the traversal from the origin
  visits the pairs \<open>(x, y)\<close> with \<open>x + y \<le> M\<close> in the canonical order (order by order, within an
  order \<open>x\<close> increasing from \<open>0\<close> and \<open>y\<close> decreasing to \<open>0\<close>), the indices are
  \<open>0, 1, ..., (M+1)(M+2)/2 - 1\<close> in this order, hence distinct and \<open>(M+1)(M+2)/2\<close> in number, and
  at every step the index is \<open>(x+y)(x+y+1)/2 + x\<close>.
\<close>

theorem packedIndex_traversal:
  assumes "0 \<le> M" "M \<le> 65534"
  shows "\<exists>l. traverse M PackedIndex_origin = Some l \<and>
      map (\<lambda>s. (p_x s, p_y s)) l = canonicalOrder M \<and>
      set (canonicalOrder M) = {(x, y). 0 \<le> x \<and> 0 \<le> y \<and> x + y \<le> M} \<and>
      map p_i l = [0..basisSize M - 1] \<and>
      distinct (map p_i l) \<and>
      int (length l) = basisSize M \<and>
      (\<forall>s \<in> set l. p_i s = (p_x s + p_y s) * (p_x s + p_y s + 1) div 2 + p_x s \<and>
                    p_n s = p_x s + p_y s)"
proof -
  let ?l = "statesFrom M 0 0"
  have t: "traverse M PackedIndex_origin = Some ?l"
    using traverse_closed_form [OF origin_inv _ basisSize_fits [OF assms]] assms(1) by simp
  have idx: "map p_i ?l = [0..basisSize M - 1]"
    using traverse_indices [OF origin_inv _ _ t] assms(1) by simp
  have "0 \<le> basisSize M"
    using assms(1) by (simp add: basisSize_def pos_imp_zdiv_nonneg_iff)
  then have len: "int (length ?l) = basisSize M"
    using arg_cong [OF idx, of length] by simp
  have d: "distinct (map p_i ?l)"
    unfolding idx by simp
  show ?thesis
    using t states_pairs [OF assms(1)] set_canonicalOrder idx d len states_formula
    by blast
qed

theorem packedIndex_traversal_witness:
  "\<exists>l. traverse 2 PackedIndex_origin = Some l \<and>
       map (\<lambda>s. (p_x s, p_y s)) l = [(0, 0), (0, 1), (1, 0), (0, 2), (1, 1), (2, 0)] \<and>
       map p_i l = [0, 1, 2, 3, 4, 5]"
proof -
  have c: "canonicalOrder 2 = [(0, 0), (0, 1), (1, 0), (0, 2), (1, 1), (2, 0)]"
    by (simp add: canonicalOrder_def orderRow_def upto_rec1)
  have b: "[0..basisSize 2 - 1] = [0, 1, 2, 3, 4, 5]"
    by (simp add: basisSize_def upto_rec1)
  from packedIndex_traversal [of 2] show ?thesis
    unfolding c b by auto
qed

theorem packedIndex_overflow:
  "traverse 65535 PackedIndex_origin = None \<and> INT_MAX < basisSize 65535 - 1"
proof -
  have "INT_MAX < basisSize 65535"
    by (simp add: basisSize_def INT_MAX_def)
  then have "traverse 65535 PackedIndex_origin = None"
    by (intro traverse_overflows origin_inv) (simp_all add: INT_MAX_def)
  then show ?thesis
    by (simp add: basisSize_def INT_MAX_def)
qed

section \<open>Properties of ModelInputHandler\<close>

lemma length_upto_nat: "length [a..b] = nat (b - a + 1)"
  by simp

lemma length_footprintPixels: "length (footprintPixels region) = getArea region"
  by (induction region) (simp_all add: footprintPixels_def getArea_def spanWidth_def)

lemma initCoords_pixels:
  "fst (initCoords region center) = map (\<lambda>p. real_of_int (fst p) - fst center) (footprintPixels region)"
  "snd (initCoords region center) = map (\<lambda>p. real_of_int (snd p) - snd center) (footprintPixels region)"
  by (simp_all add: initCoords_def footprintPixels_def map_concat comp_def)

lemma length_initCoords [simp]:
  "length (fst (initCoords region center)) = getArea region"
  "length (snd (initCoords region center)) = getArea region"
  by (simp_all add: initCoords_pixels length_footprintPixels)

lemma inArray_getBBox:
  "inArray (getArray img) (getXY0 img) p = boxContains (getBBox img) p"
  by (auto simp: inArray_def boxContains_def getBBox_def)

lemma clipSpan_pixels:
  assumes "clipSpan box s = Some s'" "x \<in> set [getX0 s'..getX1 s']"
  shows "boxContains box (x, getY s')"
  using assms by (auto simp: clipSpan_def boxContains_def split: if_splits)

lemma clipTo_pixels:
  assumes "p \<in> set (footprintPixels (clipTo box region))"
  shows "boxContains box p"
proof -
  from assms obtain s' x where s': "s' \<in> set (clipTo box region)"
    and x: "x \<in> set [getX0 s'..getX1 s']" and p: "p = (x, getY s')"
    by (auto simp: footprintPixels_def)
  from s' obtain s where "clipSpan box s = Some s'"
    by (auto simp: clipTo_def List.map_filter_def)
  with x p show ?thesis by (simp add: clipSpan_pixels)
qed

lemma clipTo_in_bounds: "list_all (boxContains box) (footprintPixels (clipTo box region))"
  by (simp add: list_all_iff clipTo_pixels)

lemma flattenArray_clipTo:
  "flattenArray (clipTo (getBBox img) region) (getArray img) (getXY0 img) =
     Inr (map (readArray (getArray img) (getXY0 img)) (footprintPixels (clipTo (getBBox img) region)))"
proof -
  have "inArray (getArray img) (getXY0 img) = boxContains (getBBox img)"
    by (rule ext) (rule inArray_getBBox)
  then show ?thesis
    by (simp add: flattenArray_def clipTo_in_bounds)
qed

lemma flattenArray_Inr:
  "flattenArray region src xy0 = Inr vs \<longleftrightarrow>
     list_all (inArray src xy0) (footprintPixels region) \<and>
     vs = map (readArray src xy0) (footprintPixels region)"
  by (auto simp: flattenArray_def)

lemma flattenArray_Inl:
  "flattenArray region src xy0 = Inl e \<longleftrightarrow> \<not> list_all (inArray src xy0) (footprintPixels region)"
  by (cases e) (auto simp: flattenArray_def)

lemma Image_Footprint_result:
  "ModelInputHandler_Image_Footprint grow img center region g =
     Inr \<lparr>h_footprint = clipTo (getBBox img) (if g \<noteq> 0 then grow region g else region),
          h_x = fst (initCoords (clipTo (getBBox img) (if g \<noteq> 0 then grow region g else region)) center),
          h_y = snd (initCoords (clipTo (getBBox img) (if g \<noteq> 0 then grow region g else region)) center),
          h_data = map (readArray (getArray img) (getXY0 img))
                     (footprintPixels (clipTo (getBBox img) (if g \<noteq> 0 then grow region g else region))),
          h_weights = None\<rparr>"
  by (simp add: ModelInputHandler_Image_Footprint_def Let_def flattenArray_clipTo)


lemma scenario_clip: "clipTo (getBBox scenarioImage) scenarioRegion = scenarioRegion"
  by (simp add: clipTo_def clipSpan_def getBBox_def scenarioImage_def scenarioRegion_def)

lemma scenario_pixels: "footprintPixels scenarioRegion = [(0, 0), (1, 0), (2, 0), (3, 0), (4, 0)]"
  by (simp add: footprintPixels_def scenarioRegion_def upto_rec1)

lemma scenario_read:
  "readArray (getArray scenarioImage) (getXY0 scenarioImage) (0, 0) = 1"
  "readArray (getArray scenarioImage) (getXY0 scenarioImage) (1, 0) = 2"
  "readArray (getArray scenarioImage) (getXY0 scenarioImage) (2, 0) = 3"
  "readArray (getArray scenarioImage) (getXY0 scenarioImage) (3, 0) = 4"
  "readArray (getArray scenarioImage) (getXY0 scenarioImage) (4, 0) = 5"
  by (simp_all add: readArray_def scenarioImage_def)

lemma MaskedImage_Box2I_extract:
  "ModelInputHandler_MaskedImage_Box2I intersectMask img center region bad u =
     extractWeighted (intersectMask (Footprint_Box2I region) (getMask img) bad) img center u"
  by (simp add: ModelInputHandler_MaskedImage_Box2I_def extractWeighted_def Let_def)

lemma MaskedImage_Footprint_extract:
  "ModelInputHandler_MaskedImage_Footprint grow intersectMask img center region g bad u =
     extractWeighted (intersectMask (if g \<noteq> 0 then grow region g else region) (getMask img) bad)
       img center u"
  by (simp add: ModelInputHandler_MaskedImage_Footprint_def extractWeighted_def Let_def)

lemma extractWeighted_readable:
  assumes "readable footprint img"
  shows "extractWeighted footprint img center u =
     Inr \<lparr>h_footprint = footprint, h_x = fst (initCoords footprint center),
          h_y = snd (initCoords footprint center),
          h_data = map2 (*)
             (map (readArray (getArray (getImage img)) (getXY0 (getImage img))) (footprintPixels footprint))
             (map (\<lambda>w. 1 / sqrt w)
                (if \<not> u
                 then map (\<lambda>_. mean (map (readArray (getArray (getVariance img)) (getXY0 (getImage img)))
                                      (footprintPixels footprint)))
                        (map (readArray (getArray (getVariance img)) (getXY0 (getImage img)))
                           (footprintPixels footprint))
                 else map (readArray (getArray (getVariance img)) (getXY0 (getImage img)))
                        (footprintPixels footprint))),
          h_weights = Some (map (\<lambda>w. 1 / sqrt w)
                (if \<not> u
                 then map (\<lambda>_. mean (map (readArray (getArray (getVariance img)) (getXY0 (getImage img)))
                                      (footprintPixels footprint)))
                        (map (readArray (getArray (getVariance img)) (getXY0 (getImage img)))
                           (footprintPixels footprint))
                 else map (readArray (getArray (getVariance img)) (getXY0 (getImage img)))
                        (footprintPixels footprint)))\<rparr>"
  using assms by (simp add: extractWeighted_def readable_def flattenArray_def Let_def)

lemma extractWeighted_unreadable:
  assumes "\<not> readable footprint img"
  shows "extractWeighted footprint img center u = Inl ArrayOutOfBounds"
  using assms by (auto simp: extractWeighted_def readable_def flattenArray_def Let_def)

lemma extractWeighted_Inr_readable:
  "extractWeighted footprint img center u = Inr h \<Longrightarrow> readable footprint img"
  using extractWeighted_unreadable [of footprint img center u] by (cases "readable footprint img") simp_all

lemma extractWeighted_weightedBy:
  assumes "extractWeighted footprint img center u = Inr h"
  shows "weightedBy img u h \<and> h_footprint h = footprint \<and> sized h"
proof -
  have r: "readable footprint img" by (rule extractWeighted_Inr_readable [OF assms])
  from assms [unfolded extractWeighted_readable [OF r]]
  show ?thesis
    by (cases u) (auto simp: weightedBy_def sized_def Let_def comp_def length_footprintPixels)
qed

lemma sqrt_25: "sqrt 25 = 5"
  by (rule real_sqrt_unique) simp_all

lemma sqrt_49: "sqrt 49 = 7"
  by (rule real_sqrt_unique) simp_all

lemma Footprint_exampleBox: "Footprint_Box2I exampleBox = [\<lparr>getY = 0, getX0 = 0, getX1 = 1\<rparr>]"
  by (simp add: Footprint_Box2I_def exampleBox_def)


lemma example_maskKeeps:
  "maskKeeps (getMask exampleMasked) bitmask (0, 0)"
  "maskKeeps (getMask exampleMasked) bitmask (1, 0)"
  "\<not> maskKeeps (getMask exampleMasked) bitmask (2, 0)"
  by (simp_all add: maskKeeps_def inArray_def readArray_def exampleMasked_def)

lemma intersectMask_example:
  "intersectMask_bits [\<lparr>getY = 0, getX0 = 0, getX1 = 1\<rparr>] (getMask exampleMasked) bitmask =
     [\<lparr>getY = 0, getX0 = 0, getX1 = 0\<rparr>, \<lparr>getY = 0, getX0 = 1, getX1 = 1\<rparr>]"
  by (simp add: intersectMask_bits_def example_maskKeeps footprintPixels_def upto_rec1)


lemma example_pixels:
  "footprintPixels [\<lparr>getY = 0, getX0 = 0, getX1 = 0\<rparr>, \<lparr>getY = 0, getX0 = 1, getX1 = 1\<rparr>] =
     [(0, 0), (1, 0)]"
  by (simp add: footprintPixels_def)

lemma example_read:
  "readArray (getArray (getImage exampleMasked)) (getXY0 (getImage exampleMasked)) (0, 0) = 3"
  "readArray (getArray (getImage exampleMasked)) (getXY0 (getImage exampleMasked)) (1, 0) = 4"
  "readArray (getArray (getVariance exampleMasked)) (getXY0 (getImage exampleMasked)) (0, 0) = 1"
  "readArray (getArray (getVariance exampleMasked)) (getXY0 (getImage exampleMasked)) (1, 0) = 49"
  by (simp_all add: readArray_def exampleMasked_def)

lemma example_readable:
  "readable [\<lparr>getY = 0, getX0 = 0, getX1 = 0\<rparr>, \<lparr>getY = 0, getX0 = 1, getX1 = 1\<rparr>] exampleMasked"
  by (simp add: readable_def example_pixels inArray_def exampleMasked_def)

lemma mean_example: "mean [1, 49] = 25" "mean [1 / sqrt 1, 1 / sqrt 49] = 4 / 7"
  by (simp_all add: mean_def sqrt_49)

lemma example_handler:
  "ModelInputHandler_MaskedImage_Box2I intersectMask_bits exampleMasked (0, 0) exampleBox 0 False =
     Inr \<lparr>h_footprint = [\<lparr>getY = 0, getX0 = 0, getX1 = 0\<rparr>, \<lparr>getY = 0, getX0 = 1, getX1 = 1\<rparr>],
          h_x = [0, 1], h_y = [0, 0], h_data = [3 / 5, 4 / 5], h_weights = Some [1 / 5, 1 / 5]\<rparr>"
  unfolding MaskedImage_Box2I_extract Footprint_exampleBox intersectMask_example
    extractWeighted_readable [OF example_readable]
  by (simp add: example_pixels example_read mean_example sqrt_25 initCoords_pixels)


text \<open>
  C2. The claim: without \<open>usePixelWeights\<close> every weight is the mean of the per-pixel weights
  \<open>1 / sqrt var_i\<close>. The code takes the mean of the variances first and then \<open>1 / sqrt\<close> of
  it; for variances \<open>1\<close> and \<open>49\<close> this is \<open>1/5\<close>, the mean of the weights being \<open>4/7\<close> (third
  theorem below). What holds for both constructors from a masked image: without
  \<open>usePixelWeights\<close> every weight is \<open>1 / sqrt\<close> of the mean variance, with it the weight
  of pixel \<open>i\<close> is \<open>1 / sqrt var_i\<close>, and in both cases the data are the pixel values times
  the weights.
\<close>

theorem weights_from_variance:
  "(ModelInputHandler_MaskedImage_Box2I intersectMask img center box bad u = Inr h \<longrightarrow>
      weightedBy img u h) \<and>
   (ModelInputHandler_MaskedImage_Footprint grow intersectMask img center region g bad u = Inr h \<longrightarrow>
      weightedBy img u h)"
  by (simp add: MaskedImage_Box2I_extract MaskedImage_Footprint_extract
      extractWeighted_weightedBy)

theorem weights_from_variance_witness:
  "ModelInputHandler_MaskedImage_Box2I intersectMask_bits exampleMasked (0, 0) exampleBox 0 False =
     Inr \<lparr>h_footprint = [\<lparr>getY = 0, getX0 = 0, getX1 = 0\<rparr>, \<lparr>getY = 0, getX0 = 1, getX1 = 1\<rparr>],
          h_x = [0, 1], h_y = [0, 0], h_data = [3 / 5, 4 / 5], h_weights = Some [1 / 5, 1 / 5]\<rparr> \<and>
   weightedBy exampleMasked False
     \<lparr>h_footprint = [\<lparr>getY = 0, getX0 = 0, getX1 = 0\<rparr>, \<lparr>getY = 0, getX0 = 1, getX1 = 1\<rparr>],
      h_x = [0, 1], h_y = [0, 0], h_data = [3 / 5, 4 / 5], h_weights = Some [1 / 5, 1 / 5]\<rparr>"
  using example_handler weights_from_variance [THEN conjunct1, rule_format, OF example_handler]
  by (rule conjI)

theorem shared_weight_is_not_mean_weight:
  "ModelInputHandler_MaskedImage_Box2I intersectMask_bits exampleMasked (0, 0) exampleBox 0 False =
     Inr \<lparr>h_footprint = [\<lparr>getY = 0, getX0 = 0, getX1 = 0\<rparr>, \<lparr>getY = 0, getX0 = 1, getX1 = 1\<rparr>],
          h_x = [0, 1], h_y = [0, 0], h_data = [3 / 5, 4 / 5], h_weights = Some [1 / 5, 1 / 5]\<rparr> \<and>
   mean [1 / sqrt 1, 1 / sqrt 49] = 4 / 7"
  using example_handler mean_example(2) by (rule conjI)










text \<open>
  C9. The constructor from an image and a footprint returns coordinate arrays holding the
  pixel coordinates minus the center, in the order of the spans, index-aligned with the
  data and of the same length, and no weights. For the single span \<open>y = 0\<close>, \<open>x = 0..4\<close>,
  center \<open>(2, 0)\<close> and image values \<open>1, ..., 5\<close> the result is \<open>x = [-2, -1, 0, 1, 2]\<close>,
  \<open>y = [0, 0, 0, 0, 0]\<close>, \<open>data = [1, 2, 3, 4, 5]\<close> and no weight array.
\<close>

theorem extraction_coordinates:
  "(\<exists>h. ModelInputHandler_Image_Footprint grow img center region g = Inr h \<and>
        h_footprint h = clipTo (getBBox img) (if g \<noteq> 0 then grow region g else region) \<and>
        h_weights h = None \<and>
        length (h_data h) = getArea (h_footprint h) \<and>
        length (h_x h) = length (h_data h) \<and> length (h_y h) = length (h_data h) \<and>
        (\<forall>n < length (h_data h).
           h_x h ! n = real_of_int (fst (footprintPixels (h_footprint h) ! n)) - fst center \<and>
           h_y h ! n = real_of_int (snd (footprintPixels (h_footprint h) ! n)) - snd center \<and>
           h_data h ! n = readArray (getArray img) (getXY0 img) (footprintPixels (h_footprint h) ! n))) \<and>
   ModelInputHandler_Image_Footprint grow scenarioImage (2, 0) scenarioRegion 0 =
     Inr \<lparr>h_footprint = scenarioRegion, h_x = [- 2, - 1, 0, 1, 2], h_y = [0, 0, 0, 0, 0],
          h_data = [1, 2, 3, 4, 5], h_weights = None\<rparr>"
proof
  show "\<exists>h. ModelInputHandler_Image_Footprint grow img center region g = Inr h \<and>
        h_footprint h = clipTo (getBBox img) (if g \<noteq> 0 then grow region g else region) \<and>
        h_weights h = None \<and>
        length (h_data h) = getArea (h_footprint h) \<and>
        length (h_x h) = length (h_data h) \<and> length (h_y h) = length (h_data h) \<and>
        (\<forall>n < length (h_data h).
           h_x h ! n = real_of_int (fst (footprintPixels (h_footprint h) ! n)) - fst center \<and>
           h_y h ! n = real_of_int (snd (footprintPixels (h_footprint h) ! n)) - snd center \<and>
           h_data h ! n = readArray (getArray img) (getXY0 img) (footprintPixels (h_footprint h) ! n))"
    unfolding Image_Footprint_result
    by (simp add: initCoords_pixels length_footprintPixels)
next
  show "ModelInputHandler_Image_Footprint grow scenarioImage (2, 0) scenarioRegion 0 =
     Inr \<lparr>h_footprint = scenarioRegion, h_x = [- 2, - 1, 0, 1, 2], h_y = [0, 0, 0, 0, 0],
          h_data = [1, 2, 3, 4, 5], h_weights = None\<rparr>"
    unfolding Image_Footprint_result
    by (simp add: scenario_clip initCoords_pixels scenario_pixels scenario_read)
qed

theorem extraction_coordinates_witness:
  "\<exists>h. ModelInputHandler_Image_Footprint (\<lambda>r n. r) scenarioImage (2, 0) scenarioRegion 0 = Inr h \<and>
       h_x h ! 3 = 1 \<and> h_y h ! 3 = 0 \<and> h_data h ! 3 = 4"
proof -
  from extraction_coordinates [of "\<lambda>r n. r" scenarioImage "(2, 0)" scenarioRegion 0, THEN conjunct1]
  obtain h where h: "ModelInputHandler_Image_Footprint (\<lambda>r n. r) scenarioImage (2, 0) scenarioRegion 0 = Inr h"
    and f: "h_footprint h = scenarioRegion"
    and l: "length (h_data h) = getArea (h_footprint h)"
    and n: "\<forall>n < length (h_data h).
           h_x h ! n = real_of_int (fst (footprintPixels (h_footprint h) ! n)) - fst (2::real, 0::real) \<and>
           h_y h ! n = real_of_int (snd (footprintPixels (h_footprint h) ! n)) - snd (2::real, 0::real) \<and>
           h_data h ! n = readArray (getArray scenarioImage) (getXY0 scenarioImage)
                            (footprintPixels (h_footprint h) ! n)"
    by (auto simp: scenario_clip)
  have "3 < length (h_data h)"
    by (simp add: l f length_footprintPixels [symmetric] scenario_pixels)
  with n have "h_x h ! 3 = real_of_int (fst (footprintPixels (h_footprint h) ! 3)) - fst (2::real, 0::real) \<and>
           h_y h ! 3 = real_of_int (snd (footprintPixels (h_footprint h) ! 3)) - snd (2::real, 0::real) \<and>
           h_data h ! 3 = readArray (getArray scenarioImage) (getXY0 scenarioImage)
                            (footprintPixels (h_footprint h) ! 3)"
    by blast
  then have "h_x h ! 3 = 1 \<and> h_y h ! 3 = 0 \<and> h_data h ! 3 = 4"
    by (simp add: f scenario_pixels scenario_read)
  with h show ?thesis by blast
qed

end
